theory Spec2Isabelle
  imports Complex_Main
begin

section \<open>Errors\<close>

text \<open>
  Every exception the modelled Python raises is a value.  \<open>NameError\<close> and
  \<open>UnboundLocalError\<close> carry the name that is not bound, \<open>AttributeError\<close> the
  attribute that was looked up, \<open>TypeError\<close> the number of positional arguments
  a callable accepts and the number it was given.
\<close>

datatype error =
    NameError string
  | UnboundLocalError string
  | AttributeError string
  | IndexError
  | TypeError nat nat
  | ValueError string
  | AssertionError
  | RecursionError
  | InvalidArgument string
  | PyException string

section \<open>The gradient mixer (mixer.py)\<close>

subsection \<open>The reward regressor and the policy-gradient term\<close>

text \<open>
  \<open>tf.gradients\<close> differentiates the graph.  To say what it yields, a scalar of
  the graph is modelled together with its derivative with respect to one
  trainable variable of the decoder (a component of it): the pair of the value
  and the derivative.  Every operation of lines 20--41 acts on such pairs by
  the rule of differentiation TensorFlow registers for it; the arithmetic is
  that of the reals.
\<close>

type_synonym dual = "real \<times> real"

text \<open>
  The pair of a fed placeholder, or of a variable other than the one
  differentiated: its derivative is 0.
\<close>

definition fed_value :: "real \<Rightarrow> dual" where
  "fed_value x = (x, 0)"

definition d_add :: "dual \<Rightarrow> dual \<Rightarrow> dual" where
  "d_add a b = (fst a + fst b, snd a + snd b)"

definition d_sub :: "dual \<Rightarrow> dual \<Rightarrow> dual" where
  "d_sub a b = (fst a - fst b, snd a - snd b)"

definition d_mul :: "dual \<Rightarrow> dual \<Rightarrow> dual" where
  "d_mul a b = (fst a * fst b, snd a * fst b + fst a * snd b)"

text \<open>\<open>tf.reduce_sum\<close> of a vector.\<close>

definition d_sum :: "dual list \<Rightarrow> dual" where
  "d_sum xs = (sum_list (map fst xs), sum_list (map snd xs))"

text \<open>
  Line 20, for one step: \<open>tf.squeeze(tf.matmul(h, linear_reg_W)) + linear_reg_b\<close>,
  the hidden states \<open>h\<close> being a (batch, rnn size) matrix and the weight a
  column.
\<close>

definition expected_reward :: "dual list list \<Rightarrow> dual list \<Rightarrow> dual \<Rightarrow> dual list" where
  "expected_reward h w b = map (\<lambda>row. d_add (d_sum (map2 d_mul row w)) b) h"

text \<open>
  \<open>tf.reduce_max\<close> of a row: the derivative is shared equally by the entries
  that attain the maximum.  (Of an empty row TensorFlow yields minus infinity;
  the value is never used, an empty row having no entry to compare it with.)
\<close>

fun max_value :: "real list \<Rightarrow> real" where
  "max_value [] = 0"
| "max_value (x # xs) = fold max xs x"

definition reduce_max :: "dual list \<Rightarrow> dual" where
  "reduce_max row =
     (let m = max_value (map fst row);
          ties = filter (\<lambda>x. fst x = m) row
      in (m, sum_list (map snd ties) / real (length ties)))"

text \<open>\<open>tf.to_float(tf.equal(a, b))\<close>: a comparison has no derivative.\<close>

definition equal_float :: "dual \<Rightarrow> dual \<Rightarrow> dual" where
  "equal_float a b = (if fst a = fst b then 1 else 0, 0)"

text \<open>\<open>tf.nn.softmax\<close> of a row, on values and on pairs.\<close>

definition softmax :: "real list \<Rightarrow> real list" where
  "softmax row = map (\<lambda>x. exp x / sum_list (map exp row)) row"

definition d_softmax :: "dual list \<Rightarrow> dual list" where
  "d_softmax row =
     (let s = softmax (map fst row);
          m = sum_list (map2 (*) s (map snd row))
      in map2 (\<lambda>p x. (p, p * (snd x - m))) s row)"

text \<open>
  \<open>tf.reduce_sum(x, 0, keep_dims=True)\<close> of a (batch, vocabulary) matrix: the
  sums of its columns.
\<close>

fun reduce_sum_0 :: "dual list list \<Rightarrow> dual list" where
  "reduce_sum_0 [] = []"
| "reduce_sum_0 [row] = row"
| "reduce_sum_0 (row # rows) = map2 d_add row (reduce_sum_0 rows)"

text \<open>\<open>tf.stop_gradient\<close> keeps the value and cuts the derivative.\<close>

definition stop_gradient :: "dual \<Rightarrow> dual" where
  "stop_gradient x = (fst x, 0)"

text \<open>
  \<open>tf.gradients(ys, x)\<close> is the derivative of the sum of all entries of \<open>ys\<close>.
\<close>

definition tf_gradients :: "dual list list \<Rightarrow> real" where
  "tf_gradients ys = sum_list (map snd (concat ys))"

text \<open>
  Lines 29--37 for one step: the rewards \<open>bleu\<close> are fed, the expected rewards
  \<open>r\<close> (one per batch element) and the logits \<open>l\<close> (batch, vocabulary) come
  from the decoder and depend on its variables.
\<close>

definition max_logits :: "dual list list \<Rightarrow> dual list" where
  "max_logits l = map reduce_max l"

definition indicator :: "dual list list \<Rightarrow> dual list list" where
  "indicator l = map2 (\<lambda>ml row. map (equal_float ml) row) (max_logits l) l"

definition derivatives :: "real list \<Rightarrow> dual list \<Rightarrow> dual list list \<Rightarrow> dual list" where
  "derivatives bleu r l =
     reduce_sum_0
       (map2 (\<lambda>c row. map (d_mul c) row)
          (map2 d_sub (map fed_value bleu) r)
          (map2 (map2 d_sub) (map d_softmax l) (indicator l)))"

definition derivatives_stopped :: "real list \<Rightarrow> dual list \<Rightarrow> dual list list \<Rightarrow> dual list" where
  "derivatives_stopped bleu r l = map stop_gradient (derivatives bleu r l)"

text \<open>
  Line 41 for one step and one variable of \<open>trainable_vars\<close>:
  \<open>tf.gradients(l * d, trainable_vars)\<close>, the product broadcasting the row \<open>d\<close>
  over the batch.
\<close>

definition reinforce_gradient :: "real list \<Rightarrow> dual list \<Rightarrow> dual list list \<Rightarrow> real" where
  "reinforce_gradient bleu r l =
     tf_gradients (map (\<lambda>row. map2 d_mul row (derivatives_stopped bleu r l)) l)"

text \<open>
  The term of the specification, section 4.5: the sum over the batch of
  (actual reward - expected reward) times (softmax of the logits - indicator
  of the maximal logits), for the vocabulary entry \<open>v\<close>.
\<close>

definition g_spec :: "real list \<Rightarrow> real list \<Rightarrow> real list list \<Rightarrow> nat \<Rightarrow> real" where
  "g_spec actual_reward expected logits_t v =
     (\<Sum>b<length logits_t.
        (actual_reward ! b - expected ! b) *
        (softmax (logits_t ! b) ! v -
           (if logits_t ! b ! v = Max (set (logits_t ! b)) then 1 else 0)))"

subsection \<open>Gradient values\<close>

text \<open>
  \<open>tf.gradients\<close> returns, per variable, \<open>None\<close>, a dense \<open>tf.Tensor\<close> or a
  \<open>tf.IndexedSlices\<close>.  The merge loop of \<open>Mixer.__init__\<close> dispatches on the
  Python type of the value, so the model keeps the type as a constructor;
  \<open>Other n\<close> is a value of any other type, \<open>n\<close> being the name of that type.
  All arithmetic of the loop is elementwise, so a tensor is represented by one
  of its components, a real number (the arithmetic is that of the reals, not
  of 32-bit floats), and an \<open>IndexedSlices\<close> by the dense value it denotes.
\<close>

datatype gradient =
    NoneG
  | Tensor real
  | IndexedSlices real
  | Other string

fun is_grad :: "gradient \<Rightarrow> bool" where
  "is_grad (Tensor v) = True"
| "is_grad (IndexedSlices v) = True"
| "is_grad g = False"

fun tensor_value :: "gradient \<Rightarrow> real option" where
  "tensor_value (Tensor v) = Some v"
| "tensor_value (IndexedSlices v) = Some v"
| "tensor_value g = None"

text \<open>
  \<open>tf.scalar_mul(scalar, x)\<close> reads \<open>x.dtype\<close> first, which raises on \<open>None\<close> and
  on a value that is no tensor; on an \<open>IndexedSlices\<close> it scales the values and
  keeps the type.  \<open>tf.add\<close> converts both operands to dense tensors.
\<close>

fun scalar_mul :: "real \<Rightarrow> gradient \<Rightarrow> error + gradient" where
  "scalar_mul c (Tensor v) = Inr (Tensor (c * v))"
| "scalar_mul c (IndexedSlices v) = Inr (IndexedSlices (c * v))"
| "scalar_mul c g = Inl (AttributeError ''dtype'')"

fun tf_add :: "gradient \<Rightarrow> gradient \<Rightarrow> error + real" where
  "tf_add a b =
     (case (tensor_value a, tensor_value b) of
        (Some x, Some y) \<Rightarrow> Inr (x + y)
      | _ \<Rightarrow> Inl (ValueError ''None values not supported''))"

text \<open>Line 63: \<open>g = tf.add(tf.scalar_mul(mix_w, xent_g), tf.scalar_mul(1 - mix_w, rg))\<close>.\<close>

definition mix :: "real \<Rightarrow> gradient \<Rightarrow> gradient \<Rightarrow> error + real" where
  "mix mix_w xent_g rg =
     (case scalar_mul mix_w xent_g of
        Inl e \<Rightarrow> Inl e
      | Inr a \<Rightarrow>
          (case scalar_mul (1 - mix_w) rg of
             Inl e \<Rightarrow> Inl e
           | Inr b \<Rightarrow> tf_add a b))"

subsection \<open>The merge loop\<close>

text \<open>
  The inner loop of lines 57--75, for the step \<open>i\<close> with mixing weight
  \<open>mix_w\<close>; \<open>j\<close> is the index \<open>enumerate\<close> has reached, the list holds the pairs
  \<open>(rg, xent_g)\<close> still to be visited and \<open>mixed\<close> is \<open>mixed_gradients\<close>.  The
  last branch is line 67: its message formats \<open>type(xg)\<close>, and no name \<open>xg\<close> is
  bound anywhere in the module, so evaluating the argument of \<open>raise\<close> raises
  \<open>NameError\<close> before the intended exception is built.
\<close>

fun merge_step ::
  "nat \<Rightarrow> real \<Rightarrow> nat \<Rightarrow> (gradient \<times> gradient) list \<Rightarrow> real option list
     \<Rightarrow> error + real option list" where
  "merge_step i mix_w j [] mixed = Inr mixed"
| "merge_step i mix_w j ((rg, xent_g) # rest) mixed =
     (if xent_g = NoneG \<and> i = 0 then
        merge_step i mix_w (Suc j) rest (mixed @ [None])
      else if is_grad xent_g then
        (case mix mix_w xent_g rg of
           Inl e \<Rightarrow> Inl e
         | Inr g \<Rightarrow>
             if i = 0 then merge_step i mix_w (Suc j) rest (mixed @ [Some g])
             else if j < length mixed then
               (case mixed ! j of
                  None \<Rightarrow> merge_step i mix_w (Suc j) rest (mixed[j := Some g])
                | Some m \<Rightarrow> merge_step i mix_w (Suc j) rest (mixed[j := Some (m + g)]))
             else Inl IndexError)
      else if xent_g = NoneG then merge_step i mix_w (Suc j) rest mixed
      else Inl (NameError ''xg''))"

text \<open>
  The outer loop of line 56 over the steps, each step being the triple
  \<open>(rgs, xent_gs, mix_w)\<close> that \<open>zip\<close> produced; \<open>i\<close> is the step index.
\<close>

fun merge_steps ::
  "nat \<Rightarrow> (gradient list \<times> gradient list \<times> real) list \<Rightarrow> real option list
     \<Rightarrow> error + real option list" where
  "merge_steps i [] mixed = Inr mixed"
| "merge_steps i ((rgs, xent_gs, mix_w) # rest) mixed =
     (case merge_step i mix_w 0 (zip rgs xent_gs) mixed of
        Inl e \<Rightarrow> Inl e
      | Inr mixed' \<Rightarrow> merge_steps (Suc i) rest mixed')"

text \<open>
  Lines 54--75: \<open>mixed_gradients\<close> as a function of the reinforce gradients, the
  cross-entropy gradients (one list of per-variable values for every step) and
  the values fed for the per-step weights.  Python's \<open>zip\<close> stops at the
  shortest of its arguments, and so does \<open>zip\<close> here.
\<close>

definition mixed_gradients ::
  "gradient list list \<Rightarrow> gradient list list \<Rightarrow> real list \<Rightarrow> error + real option list" where
  "mixed_gradients reinforce_gradients xent_gradients mixer_weights =
     merge_steps 0 (zip reinforce_gradients (zip xent_gradients mixer_weights)) []"

subsection \<open>What the merge is compared with\<close>

text \<open>
  The sum of the gradients that are present, for one variable: \<open>None\<close> when no
  step contributes, the sum of the contributions otherwise.
\<close>

fun add_opt :: "real option \<Rightarrow> real option \<Rightarrow> real option" where
  "add_opt a None = a"
| "add_opt None (Some g) = Some g"
| "add_opt (Some m) (Some g) = Some (m + g)"

definition total :: "real option list \<Rightarrow> real option" where
  "total cs = foldl add_opt None cs"

text \<open>
  The \<open>j\<close>-th value of a step's list, \<open>NoneG\<close> beyond its end.
\<close>

definition entry :: "gradient list \<Rightarrow> nat \<Rightarrow> gradient" where
  "entry gs j = (if j < length gs then gs ! j else NoneG)"

text \<open>
  The gradient of one training signal alone, for the variable \<open>j\<close>: the sum over
  the steps of that signal's gradient for \<open>j\<close>, where it is present.
\<close>

definition only_gradient :: "gradient list list \<Rightarrow> nat \<Rightarrow> real option" where
  "only_gradient gss j = total (map (\<lambda>gs. tensor_value (entry gs j)) gss)"

text \<open>
  The reinforce gradients of the steps at which the variable \<open>j\<close> has a
  cross-entropy gradient, summed.
\<close>

definition reinforce_where_xent ::
  "gradient list list \<Rightarrow> gradient list list \<Rightarrow> nat \<Rightarrow> real option" where
  "reinforce_where_xent rgss xss j =
     total (map (\<lambda>(rgs, xs). if is_grad (entry xs j) then tensor_value (entry rgs j) else None)
              (zip rgss xss))"

subsection \<open>The graph the constructor builds, and a training call\<close>

text \<open>
  A feed dictionary maps placeholders to the values fed for them.  The mixer
  owns the placeholder of the rewards (\<open>self.bleu\<close>) and one scalar placeholder
  per decoding step (\<open>self.mixer_weights\<close>); all others belong to the encoder
  and the decoder.
\<close>

datatype placeholder = Bleu | MixerWeight nat | Input string

datatype fed = Scalar real | Vector "real list"

type_synonym feed_dict = "placeholder \<rightharpoonup> fed"

text \<open>
  A training operation assigns to the variables of its variable list, each
  from the gradient evaluated for it under the feed; a variable whose gradient
  is \<open>None\<close> is left alone.
\<close>

record train_op =
  op_vars :: "string list"
  op_grads :: "feed_dict \<Rightarrow> error + real option list"

text \<open>
  The variables of the session, by name.  The rule by which an optimizer
  computes the new value of a variable from its name, its value and its
  gradient (plain gradient descent, Adam with its moment estimates) is a
  parameter \<open>opt\<close>.
\<close>

type_synonym store = "string \<rightharpoonup> real"

fun apply_gradients ::
  "(string \<Rightarrow> real \<Rightarrow> real \<Rightarrow> real) \<Rightarrow> (real option \<times> string) list \<Rightarrow> store \<Rightarrow> store" where
  "apply_gradients opt [] s = s"
| "apply_gradients opt ((None, v) # gvs) s = apply_gradients opt gvs s"
| "apply_gradients opt ((Some g, v) # gvs) s =
     apply_gradients opt gvs
       (case s v of None \<Rightarrow> s | Some x \<Rightarrow> s(v \<mapsto> opt v x g))"

text \<open>\<open>sess.run([op], feed_dict=fd)\<close> for a training operation.\<close>

definition sess_run ::
  "(string \<Rightarrow> real \<Rightarrow> real \<Rightarrow> real) \<Rightarrow> train_op \<Rightarrow> feed_dict \<Rightarrow> store \<Rightarrow> error + store" where
  "sess_run opt op fd s =
     (case op_grads op fd of
        Inl e \<Rightarrow> Inl e
      | Inr gs \<Rightarrow> Inr (apply_gradients opt (zip gs (op_vars op)) s))"

text \<open>Python's \<open>s.startswith(p)\<close>.\<close>

fun startswith :: "string \<Rightarrow> string \<Rightarrow> bool" where
  "startswith s [] = True"
| "startswith [] (p # ps) = False"
| "startswith (c # s) (p # ps) = (c = p \<and> startswith s ps)"

text \<open>
  What the constructor takes from the decoder and from TensorFlow: the
  trainable variables registered before the mixer is built, the number of
  decoding steps (\<open>len(decoder.hidden_states)\<close>), and the values
  \<open>tf.gradients\<close> yields under a feed: per step and per variable of
  \<open>trainable_vars\<close> for the two training signals, and per registered trainable
  variable for the regression loss.
\<close>

record graph =
  trainable_variables :: "string list"
  hidden_states :: nat
  reinforce_gradients :: "feed_dict \<Rightarrow> gradient list list"
  xent_gradients :: "feed_dict \<Rightarrow> gradient list list"
  regression_gradients :: "feed_dict \<Rightarrow> gradient list"

text \<open>
  Lines 17--18: the two variables of the regressor, created inside the scopes
  \<open>mixer\<close> and \<open>exprected_reward_regressor\<close> and registered as trainable.
\<close>

definition linear_reg_W :: string where
  "linear_reg_W = ''mixer/exprected_reward_regressor/Variable:0''"

definition linear_reg_b :: string where
  "linear_reg_b = ''mixer/exprected_reward_regressor/Variable_1:0''"

definition registry :: "graph \<Rightarrow> string list" where
  "registry G = trainable_variables G @ [linear_reg_W, linear_reg_b]"

text \<open>
  Line 23: \<open>GradientDescentOptimizer(1e-3).minimize(regression_loss)\<close>.  No
  \<open>var_list\<close> is passed, so the operation ranges over all trainable variables
  registered at that point.  The result is bound to a local name of the
  constructor only.
\<close>

definition regression_optimizer :: "graph \<Rightarrow> train_op" where
  "regression_optimizer G =
     \<lparr>op_vars = registry G,
      op_grads = (\<lambda>fd. Inr (map tensor_value (regression_gradients G fd)))\<rparr>"

text \<open>Line 39: the variables whose name does not start with \<open>mixer\<close>.\<close>

definition trainable_vars :: "graph \<Rightarrow> string list" where
  "trainable_vars G = filter (\<lambda>v. \<not> startswith v ''mixer'') (registry G)"

text \<open>Line 52: one scalar placeholder per hidden state.\<close>

definition mixer_weights :: "graph \<Rightarrow> placeholder list" where
  "mixer_weights G = map MixerWeight [0..<hidden_states G]"

text \<open>
  The values fed for a list of scalar placeholders; evaluating a placeholder
  that is not fed, or fed with a value of another shape, is an error.
\<close>

fun fed_scalars :: "placeholder list \<Rightarrow> feed_dict \<Rightarrow> error + real list" where
  "fed_scalars [] fd = Inr []"
| "fed_scalars (p # ps) fd =
     (case fd p of
        Some (Scalar w) \<Rightarrow>
          (case fed_scalars ps fd of Inl e \<Rightarrow> Inl e | Inr ws \<Rightarrow> Inr (w # ws))
      | _ \<Rightarrow> Inl (InvalidArgument ''You must feed a value for placeholder tensor''))"

text \<open>
  Lines 54--78: \<open>self.mixer_optimizer\<close> applies the mixed gradients, which
  depend on the values fed for the weights, to \<open>trainable_vars\<close>.
\<close>

definition mixer_optimizer :: "graph \<Rightarrow> train_op" where
  "mixer_optimizer G =
     \<lparr>op_vars = trainable_vars G,
      op_grads = (\<lambda>fd.
        case fed_scalars (mixer_weights G) fd of
          Inl e \<Rightarrow> Inl e
        | Inr ws \<Rightarrow> mixed_gradients (reinforce_gradients G fd) (xent_gradients G fd) ws)\<rparr>"

text \<open>
  \<open>Mixer.run\<close>, lines 86--101.  The rewards \<open>bleus\<close> that lines 86--89 compute
  from the decoded sentences and the references are a parameter.  Line 91 feeds
  them, lines 93--94 feed 1 for every weight placeholder, whatever the caller
  has put into \<open>fd\<close>, and the only operation run is \<open>self.mixer_optimizer\<close>.
\<close>

definition run_feed :: "graph \<Rightarrow> feed_dict \<Rightarrow> real list \<Rightarrow> feed_dict" where
  "run_feed G fd bleus =
     fold (\<lambda>w fd'. fd'(w \<mapsto> Scalar 1)) (mixer_weights G) (fd(Bleu \<mapsto> Vector bleus))"

definition run ::
  "(string \<Rightarrow> real \<Rightarrow> real \<Rightarrow> real) \<Rightarrow> graph \<Rightarrow> feed_dict \<Rightarrow> real list \<Rightarrow> store
     \<Rightarrow> error + store" where
  "run opt G fd bleus s = sess_run opt (mixer_optimizer G) (run_feed G fd bleus) s"

text \<open>The gradients a training call applies.\<close>

definition run_gradients :: "graph \<Rightarrow> feed_dict \<Rightarrow> real list \<Rightarrow> error + real option list" where
  "run_gradients G fd bleus = op_grads (mixer_optimizer G) (run_feed G fd bleus)"

section \<open>The transformer decoder (neuralmonkey/decoders/transformer.py)\<close>

subsection \<open>The layer stack\<close>

text \<open>
  A \<open>TransformerLayer\<close> holds the states of one level, a tensor of shape (batch,
  time, channels), and the mask.  The type \<open>'t\<close> of such tensors is a parameter;
  the residual connections add two of them.
\<close>

record 't TransformerLayer =
  temporal_states :: 't
  temporal_mask :: "real list list"

text \<open>
  The variable scope an operation is created in decides which parameters it
  uses: \<open>Layer k s\<close> is the scope \<open>layer_k/s\<close>, \<open>Outer\<close> the scope of the decoder
  itself.
\<close>

datatype scope = Outer | Layer int string

text \<open>
  The decoder object: its configuration, the encoder's output and the output
  projection, and the operations it imports from modules that are not part of
  the sources at hand, as parameters: \<open>layer_norm\<close>, \<open>attention\<close> (queries,
  keys, values, keys mask, number of heads, the flag \<open>masked\<close>; its dropout
  callback and its bias flag are part of the parameter), \<open>dropout\<close> at the
  decoder's keep probability and train mode, \<open>tf.layers.dense\<close> (name, units,
  whether the activation is ReLU), the input embedding \<open>embed_inputs\<close> and the
  slice \<open>[:, -1, :]\<close> of a tensor.
\<close>

record 't decoder =
  depth :: int
  n_heads_self :: int
  n_heads_enc :: int
  ff_hidden_size :: int
  dimension :: int
  encoder_states :: 't
  encoder_mask :: "real list list"
  decoding_w :: "real list list"
  decoding_b :: "real list"
  layer_norm :: "scope \<Rightarrow> 't \<Rightarrow> 't"
  attention :: "scope \<Rightarrow> 't \<Rightarrow> 't \<Rightarrow> 't \<Rightarrow> real list list \<Rightarrow> int \<Rightarrow> bool \<Rightarrow> 't"
  dropout :: "'t \<Rightarrow> 't"
  dense :: "scope \<Rightarrow> string \<Rightarrow> int \<Rightarrow> bool \<Rightarrow> 't \<Rightarrow> 't"
  embed_inputs :: "int list list \<Rightarrow> 't"
  last_time_slice :: "'t \<Rightarrow> real list list"

text \<open>
  Modelled from the spec: the default of the \<open>masked\<close> argument of the
  attention function, which the encoder-attention sublayer does not pass
  (section 4.2: the encoder attention runs with masked = false).
\<close>

definition masked_default :: bool where
  "masked_default = False"

text \<open>Lines 168--193.\<close>

definition self_attention_sublayer ::
  "('t::plus) decoder \<Rightarrow> int \<Rightarrow> 't TransformerLayer \<Rightarrow> 't" where
  "self_attention_sublayer D k prev_layer =
     (let normalized_states =
            layer_norm D (Layer k ''self_attention'') (temporal_states prev_layer);
          self_context =
            attention D (Layer k ''self_attention'') normalized_states normalized_states
              normalized_states (temporal_mask prev_layer) (n_heads_self D) True;
          self_context = dropout D self_context
      in self_context + temporal_states prev_layer)"

text \<open>Lines 195--218.\<close>

definition encoder_attention_sublayer :: "('t::plus) decoder \<Rightarrow> int \<Rightarrow> 't \<Rightarrow> 't" where
  "encoder_attention_sublayer D k queries =
     (let normalized_queries = layer_norm D (Layer k ''encdec_attention'') queries;
          encoder_context =
            attention D (Layer k ''encdec_attention'') normalized_queries (encoder_states D)
              (encoder_states D) (encoder_mask D) (n_heads_enc D) masked_default;
          encoder_context = dropout D encoder_context
      in encoder_context + queries)"

text \<open>Lines 220--241.\<close>

definition feedforward_sublayer :: "('t::plus) decoder \<Rightarrow> int \<Rightarrow> 't \<Rightarrow> 't" where
  "feedforward_sublayer D k layer_input =
     (let normalized_input = layer_norm D (Layer k ''feedforward'') layer_input;
          ff_hidden =
            dense D (Layer k ''feedforward'') ''hidden_state'' (ff_hidden_size D) True
              normalized_input;
          ff_hidden = dropout D ff_hidden;
          ff_output =
            dense D (Layer k ''feedforward'') ''output'' (dimension D) False ff_hidden;
          ff_output = dropout D ff_output
      in ff_output + layer_input)"

text \<open>
  Lines 243--269.  The recursion descends from \<open>level\<close> to 0; from a negative
  level it never arrives there, and Python ends it with a \<open>RecursionError\<close>.
  (The interpreter's recursion limit for large positive levels is not
  modelled.)
\<close>

function layer ::
  "('t::plus) decoder \<Rightarrow> int \<Rightarrow> 't \<Rightarrow> real list list \<Rightarrow> error + 't TransformerLayer" where
  "layer D level inputs msk =
     (if level = 0 then Inr \<lparr>temporal_states = inputs, temporal_mask = msk\<rparr>
      else if level < 0 then Inl RecursionError
      else
        (case layer D (level - 1) inputs msk of
           Inl e \<Rightarrow> Inl e
         | Inr prev_layer \<Rightarrow>
             (let self_context = self_attention_sublayer D (level - 1) prev_layer;
                  encoder_context = encoder_attention_sublayer D (level - 1) self_context;
                  output_states = feedforward_sublayer D (level - 1) encoder_context;
                  output_states =
                    (if depth D = level then layer_norm D Outer output_states
                     else output_states)
              in Inr \<lparr>temporal_states = output_states, temporal_mask = msk\<rparr>)))"
  by pat_completeness auto
termination
  by (relation "measure (\<lambda>(D, level, inputs, msk). nat level)") auto

declare layer.simps [simp del]

subsection \<open>The loop state\<close>

text \<open>
  Histories are time-major: one entry per step, each entry holding one value
  per batch element.  The history \<open>mask\<close> is the field \<open>mask_history\<close>, and the
  argument \<open>mask\<close> of \<open>layer\<close> is \<open>msk\<close>.
\<close>

record DecoderHistories =
  logits :: "real list list list"
  decoder_outputs :: "real list list list"
  mask_history :: "bool list list"
  outputs :: "int list list"

text \<open>
  Lines 31--37: \<open>TransformerHistories\<close> extends the histories of the parent
  class by two fields.
\<close>

record TransformerHistories = DecoderHistories +
  decoded_symbols :: "int list list"
  input_mask :: "real list list"

record DecoderFeedables =
  step :: int
  finished :: "bool list"
  input_symbol :: "int list"
  prev_logits :: "real list list"

text \<open>
  A loop state holds histories of the parent class or of the transformer; the
  type of its histories is a parameter.
\<close>

record 'h LoopState =
  histories :: 'h
  constants :: "unit list"
  feedables :: DecoderFeedables

type_synonym TransformerLoopState = "TransformerHistories LoopState"

text \<open>
  \<open>PAD_TOKEN_INDEX\<close> is imported from the vocabulary module; line 380 asserts
  that it is 0.  \<open>END_TOKEN_INDEX\<close> is imported from the same module and is a
  parameter \<open>END\<close> of the step function.
\<close>

definition PAD_TOKEN_INDEX :: int where
  "PAD_TOKEN_INDEX = 0"

text \<open>
  Modelled from the spec: \<open>AutoregressiveDecoder.get_initial_loop_state\<close>, which
  is not part of the sources at hand (section 4.3: step 0, nothing finished,
  the start-of-sequence token as input symbol, empty histories).  Its
  histories are those of the parent class.  The initial value of
  \<open>prev_logits\<close> is a parameter.
\<close>

definition default_loop_state ::
  "nat \<Rightarrow> int \<Rightarrow> real list list \<Rightarrow> DecoderHistories LoopState" where
  "default_loop_state batch_size go_symbol logits0 =
     \<lparr>histories = \<lparr>logits = [], decoder_outputs = [], mask_history = [], outputs = []\<rparr>,
      constants = [],
      feedables =
        \<lparr>step = 0, finished = replicate batch_size False,
         input_symbol = replicate batch_size go_symbol, prev_logits = logits0\<rparr>\<rparr>"

text \<open>
  Lines 296--327: the histories of the parent's initial state are taken over
  field by field, the two histories of the transformer are added as tensors of
  shape (0, batch), which have no entry, and the feedables are the parent's.
\<close>

definition get_initial_loop_state ::
  "nat \<Rightarrow> int \<Rightarrow> real list list \<Rightarrow> TransformerLoopState" where
  "get_initial_loop_state batch_size go_symbol logits0 =
     (let default_ls = default_loop_state batch_size go_symbol logits0;
          tr_histories =
            \<lparr>logits = logits (histories default_ls),
             decoder_outputs = decoder_outputs (histories default_ls),
             mask_history = mask_history (histories default_ls),
             outputs = outputs (histories default_ls),
             decoded_symbols = [],
             input_mask = []\<rparr>
      in \<lparr>histories = tr_histories, constants = [], feedables = feedables default_ls\<rparr>)"

subsection \<open>The step function\<close>

text \<open>
  \<open>tf.argmax\<close> of a row: the index of its maximum, the first one among equals;
  the reduction of an empty row is an error.
\<close>

fun argmax_from :: "real \<Rightarrow> nat \<Rightarrow> nat \<Rightarrow> real list \<Rightarrow> nat" where
  "argmax_from best at_best i [] = at_best"
| "argmax_from best at_best i (x # xs) =
     (if best < x then argmax_from x i (Suc i) xs else argmax_from best at_best (Suc i) xs)"

fun argmax :: "real list list \<Rightarrow> error + int list" where
  "argmax [] = Inr []"
| "argmax ([] # rows) = Inl (InvalidArgument ''Reduction axis 1 is empty'')"
| "argmax ((x # xs) # rows) =
     (case argmax rows of
        Inl e \<Rightarrow> Inl e
      | Inr best \<Rightarrow> Inr (int (argmax_from x 0 1 xs) # best))"

text \<open>
  \<open>tf.matmul\<close> of a (batch, channels) matrix with a (channels, vocabulary)
  matrix, and the addition of a bias vector to every row.
\<close>

definition matmul :: "real list list \<Rightarrow> real list list \<Rightarrow> real list list" where
  "matmul a w = map (\<lambda>row. map (\<lambda>col. sum_list (map2 (*) row col)) (transpose w)) a"

definition add_bias :: "real list list \<Rightarrow> real list \<Rightarrow> real list list" where
  "add_bias a b = map (\<lambda>row. map2 (+) row b) a"

text \<open>
  The product of two integer vectors, elementwise; vectors of different
  lengths are a shape error (broadcasting a vector of length one does not
  occur: both operands have one entry per batch element).
\<close>

definition multiply :: "int list \<Rightarrow> int list \<Rightarrow> error + int list" where
  "multiply xs ys =
     (if length xs = length ys then Inr (map2 (*) xs ys)
      else Inl (InvalidArgument ''Incompatible shapes''))"

text \<open>
  Lines 333--422, the function \<open>body\<close> that \<open>get_body\<close> returns.  With
  \<open>sample\<close> the next symbols are drawn by \<open>tf.multinomial\<close>; the assignments
  to \<open>has_finished\<close> and \<open>not_finished\<close> stand in the other branch of the
  conditional only (lines 375--386), so the construction of the new feedables
  in line 390 reads a local name that was never bound.
\<close>

definition body ::
  "('t::plus) decoder \<Rightarrow> int \<Rightarrow> bool \<Rightarrow> TransformerLoopState
     \<Rightarrow> error + TransformerLoopState" where
  "body D END sample loop_state =
     (let hist = histories loop_state;
          feed = feedables loop_state;
          decoded_symbols' = decoded_symbols hist @ [input_symbol feed];
          input_mask' =
            input_mask hist @ [map (\<lambda>f. if \<not> f then 1 else 0) (finished feed)];
          decoded_symbols_in_batch = transpose decoded_symbols';
          embedded_inputs = embed_inputs D decoded_symbols_in_batch
      in case layer D (depth D) embedded_inputs (transpose input_mask') of
           Inl e \<Rightarrow> Inl e
         | Inr last_layer \<Rightarrow>
             (let output_state = last_time_slice D (temporal_states last_layer);
                  logits' = add_bias (matmul output_state (decoding_w D)) (decoding_b D)
              in if sample then Inl (UnboundLocalError ''has_finished'')
                 else
                   (case argmax logits' of
                      Inl e \<Rightarrow> Inl e
                    | Inr best \<Rightarrow>
                        (let int_unfinished_mask =
                               map (\<lambda>f. if \<not> f then 1 else 0) (finished feed)
                         in case multiply best int_unfinished_mask of
                              Inl e \<Rightarrow> Inl e
                            | Inr next_symbols \<Rightarrow>
                                (let has_just_finished = map (\<lambda>s. s = END) next_symbols;
                                     has_finished =
                                       map2 (\<or>) (finished feed) has_just_finished;
                                     not_finished = map Not has_finished
                                 in Inr
                                   \<lparr>histories =
                                      \<lparr>logits = logits hist @ [logits'],
                                       decoder_outputs = decoder_outputs hist @ [output_state],
                                       mask_history = mask_history hist @ [not_finished],
                                       outputs = outputs hist @ [next_symbols],
                                       decoded_symbols = decoded_symbols',
                                       input_mask = input_mask'\<rparr>,
                                    constants = [],
                                    feedables =
                                      \<lparr>step = step feed + 1,
                                       finished = has_finished,
                                       input_symbol = next_symbols,
                                       prev_logits = logits'\<rparr>\<rparr>)))))"

text \<open>Lines 329--330 and 425: \<open>get_body\<close> asserts that it is not in train mode.\<close>

definition get_body ::
  "('t::plus) decoder \<Rightarrow> int \<Rightarrow> bool \<Rightarrow> bool
     \<Rightarrow> error + (TransformerLoopState \<Rightarrow> error + TransformerLoopState)" where
  "get_body D END train_mode sample =
     (if train_mode then Inl AssertionError else Inr (body D END sample))"

text \<open>
  The decoding loop applies the step function to the loop state again and
  again; \<open>decode n\<close> are its first \<open>n\<close> iterations, stopping at the first
  exception.
\<close>

fun decode ::
  "('t::plus) decoder \<Rightarrow> int \<Rightarrow> bool \<Rightarrow> nat \<Rightarrow> TransformerLoopState
     \<Rightarrow> error + TransformerLoopState" where
  "decode D END sample 0 ls = Inr ls"
| "decode D END sample (Suc n) ls =
     (case body D END sample ls of
        Inl e \<Rightarrow> Inl e
      | Inr ls' \<Rightarrow> decode D END sample n ls')"

text \<open>
  The loop states that the loop can reach from an initial state, with either
  way of choosing the symbol at every step.
\<close>

inductive reachable ::
  "('t::plus) decoder \<Rightarrow> int \<Rightarrow> TransformerLoopState \<Rightarrow> TransformerLoopState \<Rightarrow> bool"
  for D :: "('t::plus) decoder" and END :: int and ls0 :: TransformerLoopState where
  reach_start: "reachable D END ls0 ls0"
| reach_step: "reachable D END ls0 ls \<Longrightarrow> body D END sample ls = Inr ls' \<Longrightarrow> reachable D END ls0 ls'"

section \<open>The training driver (train_translation.py)\<close>

text \<open>
  Lines 20--23, the type of the option \<open>--mixer\<close>.  The argument is the list of
  the pieces of the option's string between commas, each as \<open>int()\<close> reads it
  (\<open>None\<close> for a piece that is no integer literal).
\<close>

fun ints :: "int option list \<Rightarrow> error + int list" where
  "ints [] = Inr []"
| "ints (None # ps) = Inl (ValueError ''invalid literal for int()'')"
| "ints (Some v # ps) = (case ints ps of Inl e \<Rightarrow> Inl e | Inr vs \<Rightarrow> Inr (v # vs))"

definition mixer_values :: "int option list \<Rightarrow> error + int list" where
  "mixer_values pieces =
     (case ints pieces of
        Inl e \<Rightarrow> Inl e
      | Inr values \<Rightarrow> if length values = 2 then Inr values else Inl AssertionError)"

text \<open>
  The parsed arguments the driver reads after line 49: \<open>mixer\<close> is \<open>None\<close>
  unless the option is given, and the value \<open>mixer_values\<close> returned otherwise.
\<close>

record args =
  mixer :: "int list option"
  character_based :: bool
  l2_regularization :: real

text \<open>The truth value Python gives \<open>args.mixer\<close> in line 137.\<close>

fun truthy :: "int list option \<Rightarrow> bool" where
  "truthy None = False"
| "truthy (Some []) = False"
| "truthy (Some (v # vs)) = True"

text \<open>
  The constructor of the mixer (mixer.py lines 8--78) as far as it can raise.
  The merge loop of lines 54--75 runs while the graph is built, and so do its
  exceptions; line 78 hands the mixed gradients to \<open>apply_gradients\<close>, which
  raises when there is no pair of a gradient and a variable, or when every
  gradient is \<open>None\<close>.  The Python types of the gradient values are fixed when
  the graph is built: the model reads them off the streams under the empty
  feed.  The weights are placeholders then, and no exception of the loop
  depends on their values.  The trainer the constructor returns is
  represented by the operation its \<open>run\<close> executes.
\<close>

datatype trainer = Trainer train_op

definition Mixer_init :: "graph \<Rightarrow> error + trainer" where
  "Mixer_init G =
     (case mixed_gradients (reinforce_gradients G Map.empty) (xent_gradients G Map.empty)
             (replicate (hidden_states G) 1) of
        Inl e \<Rightarrow> Inl e
      | Inr mixed \<Rightarrow>
          if zip mixed (trainable_vars G) = [] then Inl (ValueError ''No variables provided.'')
          else if list_all (\<lambda>gv. fst gv = None) (zip mixed (trainable_vars G))
          then Inl (ValueError ''No gradients provided for any variable'')
          else Inr (Trainer (mixer_optimizer G)))"

text \<open>
  A positional argument of a call, and the call \<open>Mixer(...)\<close>: the constructor
  is \<open>__init__(self, decoder)\<close> (mixer.py line 8), so a call with any other
  number of positional arguments raises \<open>TypeError\<close> before the body of the
  constructor runs; with an integer for the decoder the body fails at its
  first use, \<open>decoder.hidden_states\<close>.
\<close>

datatype arg = Decoder graph | Num int

definition Mixer :: "arg list \<Rightarrow> error + trainer" where
  "Mixer as =
     (case as of
        [Decoder G] \<Rightarrow> Mixer_init G
      | [Num v] \<Rightarrow> Inl (AttributeError ''hidden_states'')
      | _ \<Rightarrow> Inl (TypeError 2 (Suc (length as))))"

text \<open>
  Lines 137--141.  \<open>CrossEntropyTrainer\<close> belongs to a module that is not part
  of the sources at hand and is a parameter.
\<close>

definition make_trainer ::
  "(graph \<Rightarrow> real \<Rightarrow> error + trainer) \<Rightarrow> args \<Rightarrow> graph \<Rightarrow> error + trainer" where
  "make_trainer CrossEntropyTrainer a decoder =
     (if truthy (mixer a) then
        (case mixer a of
           Some [xent_calls, moving_calls] \<Rightarrow> Mixer [Decoder decoder, Num xent_calls, Num moving_calls]
         | _ \<Rightarrow> Inl (ValueError ''not enough values to unpack''))
      else CrossEntropyTrainer decoder (l2_regularization a))"

text \<open>
  The driver after the arguments are parsed.  \<open>build\<close> stands for lines 62--92
  (loading the data, the vocabularies, the encoder and the decoder), which may
  fail; \<open>training_loop\<close> for the loop of line 154, which runs the training
  steps.  A result \<open>Inr\<close> means that the training loop was entered.
\<close>

definition driver ::
  "(args \<Rightarrow> error + graph) \<Rightarrow> (graph \<Rightarrow> real \<Rightarrow> error + trainer) \<Rightarrow> (trainer \<Rightarrow> graph \<Rightarrow> 'r)
     \<Rightarrow> args \<Rightarrow> error + 'r" where
  "driver build CrossEntropyTrainer training_loop a =
     (if character_based a then Inl (PyException ''Not implemented'')
      else
        (case build a of
           Inl e \<Rightarrow> Inl e
         | Inr decoder \<Rightarrow>
             (case make_trainer CrossEntropyTrainer a decoder of
                Inl e \<Rightarrow> Inl e
              | Inr trainer \<Rightarrow> Inr (training_loop trainer decoder))))"

section \<open>Concrete inputs\<close>

subsection \<open>A concrete decoder\<close>

text \<open>
  A decoder of depth 1 over integers as tensors, a batch of two sequences and
  a vocabulary of three symbols with the end symbol 2: the first sequence
  ends at the first step, the second never does.
\<close>

definition example_decoder :: "int decoder" where
  "example_decoder =
     \<lparr>depth = 1, n_heads_self = 1, n_heads_enc = 1, ff_hidden_size = 4, dimension = 2,
      encoder_states = 0, encoder_mask = [],
      decoding_w = [[0, 0, 1], [0, 1, 0]], decoding_b = [0, 0, 0],
      layer_norm = (\<lambda>sc x. 2 * x),
      attention = (\<lambda>sc q k v m h c. if c then q + 1 else q + k),
      dropout = (\<lambda>x. x),
      dense = (\<lambda>sc name units relu x. if relu then max 0 x else x + units),
      embed_inputs = (\<lambda>symbols. int (length symbols)),
      last_time_slice = (\<lambda>t. [[1, 0], [0, 1]])\<rparr>"

definition example_state :: TransformerLoopState where
  "example_state = get_initial_loop_state 2 1 []"

definition example_state_1 :: TransformerLoopState where
  "example_state_1 =
     \<lparr>histories =
        \<lparr>logits = [[[0, 0, 1], [0, 1, 0]]], decoder_outputs = [[[1, 0], [0, 1]]],
         mask_history = [[False, True]], outputs = [[2, 1]],
         decoded_symbols = [[1, 1]], input_mask = [[1, 1]]\<rparr>,
      constants = [],
      feedables =
        \<lparr>step = 1, finished = [True, False], input_symbol = [2, 1],
         prev_logits = [[0, 0, 1], [0, 1, 0]]\<rparr>\<rparr>"

definition example_state_2 :: TransformerLoopState where
  "example_state_2 =
     \<lparr>histories =
        \<lparr>logits = [[[0, 0, 1], [0, 1, 0]], [[0, 0, 1], [0, 1, 0]]],
         decoder_outputs = [[[1, 0], [0, 1]], [[1, 0], [0, 1]]],
         mask_history = [[False, True], [False, True]], outputs = [[2, 1], [0, 1]],
         decoded_symbols = [[1, 1], [2, 1]], input_mask = [[1, 1], [0, 1]]\<rparr>,
      constants = [],
      feedables =
        \<lparr>step = 2, finished = [True, False], input_symbol = [0, 1],
         prev_logits = [[0, 0, 1], [0, 1, 0]]\<rparr>\<rparr>"

definition example_state_3 :: TransformerLoopState where
  "example_state_3 =
     \<lparr>histories =
        \<lparr>logits = [[[0, 0, 1], [0, 1, 0]], [[0, 0, 1], [0, 1, 0]], [[0, 0, 1], [0, 1, 0]]],
         decoder_outputs = [[[1, 0], [0, 1]], [[1, 0], [0, 1]], [[1, 0], [0, 1]]],
         mask_history = [[False, True], [False, True], [False, True]],
         outputs = [[2, 1], [0, 1], [0, 1]],
         decoded_symbols = [[1, 1], [2, 1], [0, 1]],
         input_mask = [[1, 1], [0, 1], [0, 1]]\<rparr>,
      constants = [],
      feedables =
        \<lparr>step = 3, finished = [True, False], input_symbol = [0, 1],
         prev_logits = [[0, 0, 1], [0, 1, 0]]\<rparr>\<rparr>"

subsection \<open>A concrete mixer graph\<close>

text \<open>
  A small graph for the concrete evaluations: one decoder variable, one
  decoding step, constant gradients; a store for it, and plain gradient
  descent of rate 1 as the optimizer's rule.
\<close>

definition example_graph :: graph where
  "example_graph =
     \<lparr>trainable_variables = [''decoder/W''],
      hidden_states = 1,
      reinforce_gradients = (\<lambda>fd. [[Tensor 3]]),
      xent_gradients = (\<lambda>fd. [[Tensor 5]]),
      regression_gradients = (\<lambda>fd. [Tensor 2, Tensor 1, Tensor 1])\<rparr>"

definition example_store :: store where
  "example_store = [''decoder/W'' \<mapsto> 1, linear_reg_W \<mapsto> 1 / 2, linear_reg_b \<mapsto> 0]"

definition descent :: "string \<Rightarrow> real \<Rightarrow> real \<Rightarrow> real" where
  "descent v x g = x - g"

section \<open>Notions used in the statements and proofs\<close>

text \<open>
  What one pair \<open>(rg, xent_g)\<close> adds to the variable's sum under the weight
  \<open>w\<close>, when line 63 is reached and succeeds.
\<close>

definition contrib :: "real \<Rightarrow> gradient \<times> gradient \<Rightarrow> real option" where
  "contrib w p =
     (case (tensor_value (snd p), tensor_value (fst p)) of
        (Some a, Some b) \<Rightarrow> Some (w * a + (1 - w) * b)
      | _ \<Rightarrow> None)"

text \<open>
  What a step that went through without an exception tells about its pairs:
  every cross-entropy gradient is \<open>None\<close> or a tensor, and a reinforce
  gradient stands beside every cross-entropy gradient that is a tensor.
\<close>

definition step_ok :: "(gradient \<times> gradient) list \<Rightarrow> bool" where
  "step_ok ps =
     list_all
       (\<lambda>p. (is_grad (snd p) \<or> snd p = NoneG) \<and> (\<not> is_grad (snd p) \<or> is_grad (fst p)))
       ps"

text \<open>
  The same for the variable \<open>k\<close> at one step \<open>(rgs, xent_gs, mix_w)\<close>, and
  \<open>step_ok\<close> for all steps.
\<close>

definition step_contrib :: "nat \<Rightarrow> gradient list \<times> gradient list \<times> real \<Rightarrow> real option" where
  "step_contrib k s =
     (case s of (rgs, xs, w) \<Rightarrow>
        if k < length (zip rgs xs) then contrib w (zip rgs xs ! k) else None)"

definition steps_ok :: "(gradient list \<times> gradient list \<times> real) list \<Rightarrow> bool" where
  "steps_ok ss = list_all (\<lambda>s. case s of (rgs, xs, w) \<Rightarrow> step_ok (zip rgs xs)) ss"

text \<open>
  Both gradient streams and the weights cover the same steps, and within a
  step both streams have one value per trainable variable (they are the
  results of \<open>tf.gradients\<close> for the same list \<open>trainable_vars\<close>).
\<close>

definition same_shape :: "gradient list list \<Rightarrow> gradient list list \<Rightarrow> real list \<Rightarrow> bool" where
  "same_shape rgss xss ws \<longleftrightarrow>
     length rgss = length xss \<and> length ws = length xss \<and>
     list_all2 (\<lambda>rgs xs. length rgs = length xs) rgss xss"

text \<open>
  No reinforce gradient is present where the cross-entropy gradient of the
  same variable and step is absent.
\<close>

definition aligned :: "gradient list list \<Rightarrow> gradient list list \<Rightarrow> bool" where
  "aligned rgss xss \<longleftrightarrow>
     list_all2 (\<lambda>rgs xs. list_all2 (\<lambda>rg x. is_grad rg \<longrightarrow> is_grad x) rgs xs) rgss xss"

text \<open>
  What \<open>tf.gradients\<close> yields for one variable at one step in the two streams.
  Both gradients are taken of functions of the same logits of the step (lines
  41 and 47--50: the stopped term, the targets and the fed weights add no
  path to a variable), for the same list \<open>trainable_vars\<close>: both are \<open>None\<close>, or
  both are tensors (dense or indexed slices).
\<close>

definition pair_ok :: "gradient \<times> gradient \<Rightarrow> bool" where
  "pair_ok p \<longleftrightarrow> (fst p = NoneG \<and> snd p = NoneG) \<or> (is_grad (fst p) \<and> is_grad (snd p))"

text \<open>
  The two streams of the constructor for \<open>n\<close> trainable variables: the same
  number of steps in both, \<open>n\<close> values at every step, and every pair as above.
\<close>

definition gradient_streams :: "nat \<Rightarrow> gradient list list \<Rightarrow> gradient list list \<Rightarrow> bool" where
  "gradient_streams n rgss xss \<longleftrightarrow>
     list_all2
       (\<lambda>rgs xs. length rgs = n \<and> length xs = n \<and> list_all pair_ok (zip rgs xs))
       rgss xss"

text \<open>The invariant of claim C9.\<close>

definition histories_match_step :: "TransformerLoopState \<Rightarrow> bool" where
  "histories_match_step ls \<longleftrightarrow>
     int (length (logits (histories ls))) = step (feedables ls) \<and>
     int (length (decoder_outputs (histories ls))) = step (feedables ls) \<and>
     int (length (mask_history (histories ls))) = step (feedables ls) \<and>
     int (length (outputs (histories ls))) = step (feedables ls) \<and>
     int (length (decoded_symbols (histories ls))) = step (feedables ls) \<and>
     int (length (input_mask (histories ls))) = step (feedables ls)"

text \<open>
  The shape of the inputs of one step of the policy-gradient estimator: a
  batch that is not empty, one reward and one expected reward per batch
  element, and \<open>V\<close> logits per batch element.
\<close>

definition step_shape :: "real list \<Rightarrow> dual list \<Rightarrow> dual list list \<Rightarrow> nat \<Rightarrow> bool" where
  "step_shape bleu r l V \<longleftrightarrow>
     l \<noteq> [] \<and> length bleu = length l \<and> length r = length l \<and> list_all (\<lambda>row. length row = V) l"

section \<open>Verification of the gradient mixer\<close>

lemma is_grad_value: "is_grad g \<longleftrightarrow> tensor_value g \<noteq> None"
  by (cases g) auto

lemma mix_Inr:
  "mix w x rg = Inr g \<Longrightarrow> is_grad x \<and> is_grad rg \<and> contrib w (rg, x) = Some g"
  by (cases x; cases rg) (auto simp: mix_def contrib_def)

lemma contrib_not_grad: "\<not> is_grad x \<Longrightarrow> contrib w (rg, x) = None"
  by (cases x) (auto simp: contrib_def)

lemma merge_step_first:
  "merge_step 0 w j ps mixed = Inr m' \<Longrightarrow> m' = mixed @ map (contrib w) ps \<and> step_ok ps"
proof (induction ps arbitrary: j mixed)
  case Nil
  then show ?case by (simp add: step_ok_def)
next
  case (Cons p ps)
  obtain rg x where p: "p = (rg, x)" by (cases p)
  show ?case
  proof (cases "x = NoneG")
    case True
    with Cons.prems p have "merge_step 0 w (Suc j) ps (mixed @ [None]) = Inr m'" by simp
    from Cons.IH[OF this] True p show ?thesis
      by (simp add: contrib_not_grad step_ok_def)
  next
    case False
    with Cons.prems p have g: "is_grad x"
      by (auto split: if_splits)
    with Cons.prems p False obtain g' where m: "mix w x rg = Inr g'"
      and r: "merge_step 0 w (Suc j) ps (mixed @ [Some g']) = Inr m'"
      by (auto split: sum.splits)
    from Cons.IH[OF r] mix_Inr[OF m] p show ?thesis
      by (simp add: step_ok_def)
  qed
qed

lemma merge_step_later:
  "0 < i \<Longrightarrow> merge_step i w j ps mixed = Inr m' \<Longrightarrow>
     length m' = length mixed \<and> step_ok ps \<and>
     (\<forall>k<length mixed. m' ! k =
        (if j \<le> k \<and> k - j < length ps then add_opt (mixed ! k) (contrib w (ps ! (k - j)))
         else mixed ! k))"
proof (induction ps arbitrary: j mixed)
  case Nil
  then show ?case by (simp add: step_ok_def)
next
  case (Cons p ps)
  obtain rg x where p: "p = (rg, x)" by (cases p)
  show ?case
  proof (cases "is_grad x")
    case False
    with Cons.prems p have xn: "x = NoneG" and r: "merge_step i w (Suc j) ps mixed = Inr m'"
      by (auto split: if_splits)
    from Cons.IH[OF Cons.prems(1) r] have
      len: "length m' = length mixed" and ok: "step_ok ps" and
      ih: "\<forall>k<length mixed. m' ! k =
        (if Suc j \<le> k \<and> k - Suc j < length ps then add_opt (mixed ! k) (contrib w (ps ! (k - Suc j)))
         else mixed ! k)" by auto
    have "m' ! k = (if j \<le> k \<and> k - j < length (p # ps)
            then add_opt (mixed ! k) (contrib w ((p # ps) ! (k - j))) else mixed ! k)"
      if k: "k < length mixed" for k
    proof (cases "k = j")
      case True
      with ih k p False show ?thesis by (simp add: contrib_not_grad)
    next
      case False
      with ih k show ?thesis
        by (cases "j \<le> k") (auto simp: nth_Cons' Suc_diff_Suc less_diff_conv)
    qed
    with len ok p xn show ?thesis by (simp add: step_ok_def)
  next
    case True
    with Cons.prems p obtain g where m: "mix w x rg = Inr g" and jl: "j < length mixed"
      and r: "merge_step i w (Suc j) ps (mixed[j := add_opt (mixed ! j) (Some g)]) = Inr m'"
      by (cases "mixed ! j") (auto split: sum.splits if_splits option.splits)
    let ?mx = "mixed[j := add_opt (mixed ! j) (Some g)]"
    from Cons.IH[OF Cons.prems(1) r] have
      len: "length m' = length mixed" and ok: "step_ok ps" and
      ih: "\<forall>k<length mixed. m' ! k =
        (if Suc j \<le> k \<and> k - Suc j < length ps then add_opt (?mx ! k) (contrib w (ps ! (k - Suc j)))
         else ?mx ! k)" by auto
    have "m' ! k = (if j \<le> k \<and> k - j < length (p # ps)
            then add_opt (mixed ! k) (contrib w ((p # ps) ! (k - j))) else mixed ! k)"
      if k: "k < length mixed" for k
    proof (cases "k = j")
      case True
      with ih k p mix_Inr[OF m] show ?thesis by simp
    next
      case False
      with ih k show ?thesis
        by (cases "j \<le> k") (auto simp: nth_Cons' Suc_diff_Suc less_diff_conv)
    qed
    with len ok p mix_Inr[OF m] show ?thesis by (simp add: step_ok_def)
  qed
qed

lemma merge_steps_later:
  "0 < i \<Longrightarrow> merge_steps i ss mixed = Inr mg \<Longrightarrow>
     length mg = length mixed \<and> steps_ok ss \<and>
     (\<forall>k<length mixed. mg ! k = foldl add_opt (mixed ! k) (map (step_contrib k) ss))"
proof (induction ss arbitrary: i mixed)
  case Nil
  then show ?case by (simp add: steps_ok_def)
next
  case (Cons s ss)
  obtain rgs xs w where s: "s = (rgs, xs, w)" by (cases s)
  from Cons.prems s obtain m1 where
    a: "merge_step i w 0 (zip rgs xs) mixed = Inr m1" and
    b: "merge_steps (Suc i) ss m1 = Inr mg"
    by (auto split: sum.splits)
  from merge_step_later[OF Cons.prems(1) a] have
    l1: "length m1 = length mixed" and ok1: "step_ok (zip rgs xs)" and
    v1: "\<forall>k<length mixed. m1 ! k = add_opt (mixed ! k) (step_contrib k s)"
    by (auto simp: step_contrib_def s)
  from Cons.IH[OF _ b] have
    l2: "length mg = length m1" and ok2: "steps_ok ss" and
    v2: "\<forall>k<length m1. mg ! k = foldl add_opt (m1 ! k) (map (step_contrib k) ss)"
    by auto
  from l1 l2 ok1 ok2 v1 v2 s show ?case by (simp add: steps_ok_def)
qed

lemma foldl_add_opt_None: "foldl add_opt c cs = foldl add_opt None (c # cs)"
  by (cases c) simp_all

lemma merge_steps_all:
  assumes "merge_steps 0 ss [] = Inr mg"
  shows "steps_ok ss \<and> (\<forall>k<length mg. mg ! k = total (map (step_contrib k) ss))"
proof (cases ss)
  case Nil
  with assms show ?thesis by (simp add: steps_ok_def)
next
  case (Cons s rest)
  obtain rgs xs w where s: "s = (rgs, xs, w)" by (cases s)
  from assms Cons s obtain m1 where
    a: "merge_step 0 w 0 (zip rgs xs) [] = Inr m1" and
    b: "merge_steps (Suc 0) rest m1 = Inr mg"
    by (auto split: sum.splits)
  from merge_step_first[OF a] have m1: "m1 = map (contrib w) (zip rgs xs)"
    and ok1: "step_ok (zip rgs xs)" by auto
  from merge_steps_later[OF _ b] have
    l2: "length mg = length m1" and ok2: "steps_ok rest" and
    v2: "\<forall>k<length m1. mg ! k = foldl add_opt (m1 ! k) (map (step_contrib k) rest)"
    by auto
  have "mg ! k = total (map (step_contrib k) ss)" if "k < length mg" for k
  proof -
    from that l2 m1 have kl: "k < length (zip rgs xs)" by simp
    with m1 have "m1 ! k = step_contrib k s" by (simp add: step_contrib_def s)
    with v2 that l2 show ?thesis
      unfolding total_def Cons by (simp add: foldl_add_opt_None[of "step_contrib k s"])
  qed
  with ok1 ok2 Cons s show ?thesis by (simp add: steps_ok_def)
qed

lemma contrib_one: "is_grad x \<longrightarrow> is_grad rg \<Longrightarrow> contrib 1 (rg, x) = tensor_value x"
  by (cases x; cases rg) (auto simp: contrib_def)

lemma contrib_zero:
  "is_grad x \<longrightarrow> is_grad rg \<Longrightarrow> contrib 0 (rg, x) = (if is_grad x then tensor_value rg else None)"
  by (cases x; cases rg) (auto simp: contrib_def)

lemma step_ok_nth:
  "step_ok ps \<Longrightarrow> k < length ps \<Longrightarrow> is_grad (snd (ps ! k)) \<longrightarrow> is_grad (fst (ps ! k))"
  by (auto simp: step_ok_def list_all_length)

lemma step_contrib_one:
  assumes "step_ok (zip rgs xs)" "length rgs = length xs"
  shows "step_contrib k (rgs, xs, 1) = tensor_value (entry xs k)"
  using step_ok_nth[OF assms(1), of k] assms(2)
  by (auto simp: step_contrib_def entry_def contrib_one)

lemma step_contrib_zero:
  assumes "step_ok (zip rgs xs)" "length rgs = length xs"
  shows "step_contrib k (rgs, xs, 0) = (if is_grad (entry xs k) then tensor_value (entry rgs k) else None)"
  using step_ok_nth[OF assms(1), of k] assms(2)
  by (auto simp: step_contrib_def entry_def contrib_zero)

lemma steps_ok_nth:
  "steps_ok ss \<Longrightarrow> t < length ss \<Longrightarrow> ss ! t = (rgs, xs, w) \<Longrightarrow> step_ok (zip rgs xs)"
  by (auto simp: steps_ok_def list_all_length)

lemma contribs_one:
  assumes sh: "same_shape rgss xss ws" and ok: "steps_ok (zip rgss (zip xss ws))"
    and w: "\<forall>w\<in>set ws. w = 1"
  shows "map (step_contrib k) (zip rgss (zip xss ws)) = map (\<lambda>xs. tensor_value (entry xs k)) xss"
proof (rule nth_equalityI)
  from sh show "length (map (step_contrib k) (zip rgss (zip xss ws))) =
      length (map (\<lambda>xs. tensor_value (entry xs k)) xss)" by (simp add: same_shape_def)
next
  fix t assume "t < length (map (step_contrib k) (zip rgss (zip xss ws)))"
  with sh have t: "t < length rgss" "t < length xss" "t < length ws"
    by (simp_all add: same_shape_def)
  then have nth: "zip rgss (zip xss ws) ! t = (rgss ! t, xss ! t, ws ! t)" by simp
  from t have tl: "t < length (zip rgss (zip xss ws))" by simp
  from w t have w1: "ws ! t = 1" by simp
  from sh t have len: "length (rgss ! t) = length (xss ! t)"
    by (simp add: same_shape_def list_all2_conv_all_nth)
  from steps_ok_nth[OF ok tl nth] have "step_ok (zip (rgss ! t) (xss ! t))" .
  from step_contrib_one[OF this len, of k] t nth w1
  show "map (step_contrib k) (zip rgss (zip xss ws)) ! t = map (\<lambda>xs. tensor_value (entry xs k)) xss ! t"
    by simp
qed

lemma contribs_zero:
  assumes sh: "same_shape rgss xss ws" and ok: "steps_ok (zip rgss (zip xss ws))"
    and w: "\<forall>w\<in>set ws. w = 0"
  shows "map (step_contrib k) (zip rgss (zip xss ws)) =
     map (\<lambda>(rgs, xs). if is_grad (entry xs k) then tensor_value (entry rgs k) else None) (zip rgss xss)"
proof (rule nth_equalityI)
  from sh show "length (map (step_contrib k) (zip rgss (zip xss ws))) =
      length (map (\<lambda>(rgs, xs). if is_grad (entry xs k) then tensor_value (entry rgs k) else None)
         (zip rgss xss))" by (simp add: same_shape_def)
next
  fix t assume "t < length (map (step_contrib k) (zip rgss (zip xss ws)))"
  with sh have t: "t < length rgss" "t < length xss" "t < length ws"
    by (simp_all add: same_shape_def)
  then have nth: "zip rgss (zip xss ws) ! t = (rgss ! t, xss ! t, ws ! t)" by simp
  from t have tl: "t < length (zip rgss (zip xss ws))" by simp
  from w t have w1: "ws ! t = 0" by simp
  from sh t have len: "length (rgss ! t) = length (xss ! t)"
    by (simp add: same_shape_def list_all2_conv_all_nth)
  from steps_ok_nth[OF ok tl nth] have "step_ok (zip (rgss ! t) (xss ! t))" .
  from step_contrib_zero[OF this len, of k] t nth w1
  show "map (step_contrib k) (zip rgss (zip xss ws)) ! t =
     map (\<lambda>(rgs, xs). if is_grad (entry xs k) then tensor_value (entry rgs k) else None) (zip rgss xss) ! t"
    by simp
qed

lemma aligned_where_xent:
  assumes "aligned rgss xss"
  shows "reinforce_where_xent rgss xss k = only_gradient rgss k"
proof -
  have "map (\<lambda>(rgs, xs). if is_grad (entry xs k) then tensor_value (entry rgs k) else None) (zip rgss xss)
      = map (\<lambda>gs. tensor_value (entry gs k)) rgss"
  proof (rule nth_equalityI)
    from assms show "length (map (\<lambda>(rgs, xs). if is_grad (entry xs k) then tensor_value (entry rgs k) else None) (zip rgss xss))
      = length (map (\<lambda>gs. tensor_value (entry gs k)) rgss)"
      by (simp add: aligned_def list_all2_lengthD)
  next
    fix t assume "t < length (map (\<lambda>(rgs, xs). if is_grad (entry xs k) then tensor_value (entry rgs k) else None) (zip rgss xss))"
    then have t: "t < length rgss" "t < length xss" by simp_all
    with assms have a: "list_all2 (\<lambda>rg x. is_grad rg \<longrightarrow> is_grad x) (rgss ! t) (xss ! t)"
      by (simp add: aligned_def list_all2_conv_all_nth)
    then have "length (rgss ! t) = length (xss ! t)" by (rule list_all2_lengthD)
    with a have "\<not> is_grad (entry (xss ! t) k) \<Longrightarrow> tensor_value (entry (rgss ! t) k) = None"
      by (auto simp: entry_def list_all2_conv_all_nth is_grad_value split: if_splits)
    with t show "map (\<lambda>(rgs, xs). if is_grad (entry xs k) then tensor_value (entry rgs k) else None) (zip rgss xss) ! t
      = map (\<lambda>gs. tensor_value (entry gs k)) rgss ! t" by simp
  qed
  then show ?thesis by (simp add: reinforce_where_xent_def only_gradient_def)
qed

lemma mixing_values:
  assumes "same_shape rgss xss ws"
    and "mixed_gradients rgss xss ws = Inr mg"
    and "k < length mg"
  shows "((\<forall>w\<in>set ws. w = 1) \<longrightarrow> mg ! k = only_gradient xss k) \<and>
         ((\<forall>w\<in>set ws. w = 0) \<longrightarrow> mg ! k = reinforce_where_xent rgss xss k) \<and>
         ((\<forall>w\<in>set ws. w = 0) \<and> aligned rgss xss \<longrightarrow> mg ! k = only_gradient rgss k)"
proof -
  from assms(2) have m: "merge_steps 0 (zip rgss (zip xss ws)) [] = Inr mg"
    by (simp add: mixed_gradients_def)
  from merge_steps_all[OF m] assms(3) have ok: "steps_ok (zip rgss (zip xss ws))"
    and v: "mg ! k = total (map (step_contrib k) (zip rgss (zip xss ws)))" by auto
  have one: "mg ! k = only_gradient xss k" if "\<forall>w\<in>set ws. w = 1"
    using v contribs_one[OF assms(1) ok that, of k] by (simp add: only_gradient_def)
  have zero: "mg ! k = reinforce_where_xent rgss xss k" if "\<forall>w\<in>set ws. w = 0"
    using v contribs_zero[OF assms(1) ok that, of k] by (simp add: reinforce_where_xent_def)
  from one zero aligned_where_xent show ?thesis by auto
qed

subsection \<open>The merge loop completes on the streams of the constructor\<close>

lemma mix_total: "is_grad x \<Longrightarrow> is_grad rg \<Longrightarrow> \<exists>g. mix w x rg = Inr g"
  by (cases x; cases rg) (simp_all add: mix_def)

lemma merge_step_first_total:
  "list_all pair_ok ps \<Longrightarrow> \<exists>m'. merge_step 0 w j ps mixed = Inr m'"
proof (induction ps arbitrary: j mixed)
  case Nil
  then show ?case by simp
next
  case (Cons p ps)
  obtain rg x where p: "p = (rg, x)" by (cases p)
  from Cons.prems have rest: "list_all pair_ok ps" and ok: "pair_ok (rg, x)" by (simp_all add: p)
  show ?case
  proof (cases "x = NoneG")
    case True
    with Cons.IH[OF rest, of "Suc j" "mixed @ [None]"] p show ?thesis by simp
  next
    case False
    with ok have gx: "is_grad x" and gr: "is_grad rg" by (auto simp: pair_ok_def)
    from mix_total[OF gx gr, of w] obtain g where g: "mix w x rg = Inr g" by blast
    with Cons.IH[OF rest, of "Suc j" "mixed @ [Some g]"] p False gx show ?thesis by simp
  qed
qed

lemma merge_step_later_total:
  "0 < i \<Longrightarrow> list_all pair_ok ps \<Longrightarrow> j + length ps \<le> length mixed \<Longrightarrow>
     \<exists>m'. merge_step i w j ps mixed = Inr m'"
proof (induction ps arbitrary: j mixed)
  case Nil
  then show ?case by simp
next
  case (Cons p ps)
  obtain rg x where p: "p = (rg, x)" by (cases p)
  from Cons.prems have rest: "list_all pair_ok ps" and ok: "pair_ok (rg, x)" by (simp_all add: p)
  from Cons.prems have j: "j < length mixed" and l: "Suc j + length ps \<le> length mixed"
    by simp_all
  show ?case
  proof (cases "x = NoneG")
    case True
    with Cons.IH[OF Cons.prems(1) rest l] p Cons.prems(1) show ?thesis by simp
  next
    case False
    with ok have gx: "is_grad x" and gr: "is_grad rg" by (auto simp: pair_ok_def)
    from mix_total[OF gx gr, of w] obtain g where g: "mix w x rg = Inr g" by blast
    have l': "Suc j + length ps \<le> length (mixed[j := v])" for v using l by simp
    from Cons.IH[OF Cons.prems(1) rest l'] g p False gx j Cons.prems(1) show ?thesis
      by (cases "mixed ! j") simp_all
  qed
qed

lemma merge_steps_later_total:
  "0 < i \<Longrightarrow>
   list_all (\<lambda>s. case s of (rgs, xs, w) \<Rightarrow>
      list_all pair_ok (zip rgs xs) \<and> length (zip rgs xs) \<le> length mixed) ss \<Longrightarrow>
     \<exists>mg. merge_steps i ss mixed = Inr mg"
proof (induction ss arbitrary: i mixed)
  case Nil
  then show ?case by simp
next
  case (Cons s ss)
  obtain rgs xs w where s: "s = (rgs, xs, w)" by (cases s)
  from Cons.prems(2) s have ok: "list_all pair_ok (zip rgs xs)"
    and len: "0 + length (zip rgs xs) \<le> length mixed"
    and rest: "list_all (\<lambda>s. case s of (rgs, xs, w) \<Rightarrow>
      list_all pair_ok (zip rgs xs) \<and> length (zip rgs xs) \<le> length mixed) ss"
    by simp_all
  from merge_step_later_total[OF Cons.prems(1) ok len] obtain m1 where
    m1: "merge_step i w 0 (zip rgs xs) mixed = Inr m1" by blast
  from merge_step_later[OF Cons.prems(1) m1] have "length m1 = length mixed" by simp
  with rest have rest': "list_all (\<lambda>s. case s of (rgs, xs, w) \<Rightarrow>
      list_all pair_ok (zip rgs xs) \<and> length (zip rgs xs) \<le> length m1) ss" by simp
  from Cons.IH[OF _ rest', of "Suc i"] m1 s show ?case by simp
qed

lemma streams_nth:
  assumes "gradient_streams n rgss xss" "t < length xss"
  shows "length (rgss ! t) = n" "length (xss ! t) = n" "list_all pair_ok (zip (rgss ! t) (xss ! t))"
  using assms by (simp_all add: gradient_streams_def list_all2_conv_all_nth)

lemma streams_length: "gradient_streams n rgss xss \<Longrightarrow> length rgss = length xss"
  by (simp add: gradient_streams_def list_all2_lengthD)

lemma streams_same_shape:
  "gradient_streams n rgss xss \<Longrightarrow> length ws = length xss \<Longrightarrow> same_shape rgss xss ws"
  by (auto simp: gradient_streams_def same_shape_def list_all2_conv_all_nth)

lemma pair_ok_aligned: "pair_ok (rg, x) \<Longrightarrow> is_grad rg \<longrightarrow> is_grad x"
  by (auto simp: pair_ok_def)

lemma streams_aligned:
  assumes "gradient_streams n rgss xss"
  shows "aligned rgss xss"
  unfolding aligned_def
proof (rule list_all2_all_nthI)
  show "length rgss = length xss" by (rule streams_length[OF assms])
next
  fix t assume "t < length rgss"
  with streams_length[OF assms] have t: "t < length xss" by simp
  note S = streams_nth[OF assms t]
  show "list_all2 (\<lambda>rg x. is_grad rg \<longrightarrow> is_grad x) (rgss ! t) (xss ! t)"
  proof (rule list_all2_all_nthI)
    from S show "length (rgss ! t) = length (xss ! t)" by simp
  next
    fix j assume j: "j < length (rgss ! t)"
    with S have "pair_ok (zip (rgss ! t) (xss ! t) ! j)" by (simp add: list_all_length)
    with S j have "pair_ok (rgss ! t ! j, xss ! t ! j)" by simp
    then show "is_grad (rgss ! t ! j) \<longrightarrow> is_grad (xss ! t ! j)" by (rule pair_ok_aligned)
  qed
qed

lemma mixed_gradients_total:
  assumes st: "gradient_streams n rgss xss" and lw: "length ws = length xss" and ne: "xss \<noteq> []"
  shows "\<exists>mg. mixed_gradients rgss xss ws = Inr mg \<and> length mg = n"
proof -
  from streams_length[OF st] have lr: "length rgss = length xss" .
  from ne lr lw obtain rgs rgss' xs xss' w ws' where
    c: "rgss = rgs # rgss'" "xss = xs # xss'" "ws = w # ws'"
    by (cases rgss; cases xss; cases ws) auto
  from streams_nth[OF st, of 0] c have l0: "length rgs = n" "length xs = n"
    and ok0: "list_all pair_ok (zip rgs xs)" by simp_all
  from merge_step_first_total[OF ok0, of w 0 "[]"] obtain m1 where
    m1: "merge_step 0 w 0 (zip rgs xs) [] = Inr m1" by blast
  from merge_step_first[OF m1] l0 have lm: "length m1 = n" by simp
  have rest: "list_all (\<lambda>s. case s of (rgs, xs, w) \<Rightarrow>
      list_all pair_ok (zip rgs xs) \<and> length (zip rgs xs) \<le> length m1)
      (zip rgss' (zip xss' ws'))"
  proof (rule list_all_length[THEN iffD2], intro allI impI)
    fix t assume "t < length (zip rgss' (zip xss' ws'))"
    then have t: "t < length rgss'" "t < length xss'" "t < length ws'" by simp_all
    then have "Suc t < length xss" by (simp add: c)
    from streams_nth[OF st this] c t lm
    show "case zip rgss' (zip xss' ws') ! t of (rgs, xs, w) \<Rightarrow>
      list_all pair_ok (zip rgs xs) \<and> length (zip rgs xs) \<le> length m1" by simp
  qed
  from merge_steps_later_total[OF _ rest, of "Suc 0"] obtain mg where
    mg: "merge_steps (Suc 0) (zip rgss' (zip xss' ws')) m1 = Inr mg" by auto
  from merge_steps_later[OF _ mg] lm have "length mg = n" by simp
  with m1 mg c show ?thesis by (simp add: mixed_gradients_def)
qed

text \<open>
  Claim C1.  For gradient streams as \<open>tf.gradients\<close> yields them, with at least
  one decoding step and one mixing weight per step, the merge loop completes
  with one mixed gradient per trainable variable, and for every variable
  \<open>k\<close>: when the mixing weight is 1 at every step, the mixed gradient is
  exactly the cross-entropy-only gradient, the sum over the steps of the
  variable's cross-entropy gradients with no reinforce contribution; when the
  weight is 0 at every step, it is exactly the reinforce-only gradient.
\<close>

theorem mixing_weight_extremes:
  assumes "gradient_streams n rgss xss" and "length ws = length xss" and "xss \<noteq> []"
    and "k < n"
  shows "\<exists>mg. mixed_gradients rgss xss ws = Inr mg \<and> length mg = n \<and>
           ((\<forall>w\<in>set ws. w = 1) \<longrightarrow> mg ! k = only_gradient xss k) \<and>
           ((\<forall>w\<in>set ws. w = 0) \<longrightarrow> mg ! k = only_gradient rgss k)"
proof -
  from mixed_gradients_total[OF assms(1-3)] obtain mg where
    mg: "mixed_gradients rgss xss ws = Inr mg" and len: "length mg = n" by blast
  from assms(4) len have k: "k < length mg" by simp
  note V = mixing_values[OF streams_same_shape[OF assms(1,2)] mg k]
  from V streams_aligned[OF assms(1)] have
    "(\<forall>w\<in>set ws. w = 1) \<longrightarrow> mg ! k = only_gradient xss k"
    "(\<forall>w\<in>set ws. w = 0) \<longrightarrow> mg ! k = only_gradient rgss k" by blast+
  with mg len show ?thesis by blast
qed

theorem mixing_weight_extremes_witness:
  "gradient_streams 2 [[Tensor 3, NoneG], [Tensor 4, IndexedSlices 2]]
                      [[Tensor 5, NoneG], [IndexedSlices 7, Tensor 1]] \<and>
   mixed_gradients [[Tensor 3, NoneG], [Tensor 4, IndexedSlices 2]]
                   [[Tensor 5, NoneG], [IndexedSlices 7, Tensor 1]] [1, 1] = Inr [Some 12, Some 1] \<and>
   only_gradient [[Tensor 5, NoneG], [IndexedSlices 7, Tensor 1]] 0 = Some 12 \<and>
   only_gradient [[Tensor 5, NoneG], [IndexedSlices 7, Tensor 1]] 1 = Some 1 \<and>
   mixed_gradients [[Tensor 3, NoneG], [Tensor 4, IndexedSlices 2]]
                   [[Tensor 5, NoneG], [IndexedSlices 7, Tensor 1]] [0, 0] = Inr [Some 7, Some 2] \<and>
   only_gradient [[Tensor 3, NoneG], [Tensor 4, IndexedSlices 2]] 0 = Some 7 \<and>
   only_gradient [[Tensor 3, NoneG], [Tensor 4, IndexedSlices 2]] 1 = Some 2"
proof -
  let ?r = "[[Tensor 3, NoneG], [Tensor 4, IndexedSlices 2]]"
  let ?x = "[[Tensor 5, NoneG], [IndexedSlices 7, Tensor 1]]"
  have st: "gradient_streams 2 ?r ?x" by (simp add: gradient_streams_def pair_ok_def)
  have m1: "mixed_gradients ?r ?x [1, 1] = Inr [Some 12, Some 1]"
    by (simp add: mixed_gradients_def mix_def)
  have m0: "mixed_gradients ?r ?x [0, 0] = Inr [Some 7, Some 2]"
    by (simp add: mixed_gradients_def mix_def)
  have l: "length [1, 1::real] = length ?x" "length [0, 0::real] = length ?x" "?x \<noteq> []"
    by simp_all
  have k: "(0::nat) < 2" "(1::nat) < 2" by simp_all
  have w1: "\<forall>w\<in>set [1, 1::real]. w = 1" and w0: "\<forall>w\<in>set [0, 0::real]. w = 0" by simp_all
  from mixing_weight_extremes[OF st l(1) l(3) k(1)] m1 w1
  have a0: "only_gradient ?x 0 = Some 12" by auto
  from mixing_weight_extremes[OF st l(1) l(3) k(2)] m1 w1
  have a1: "only_gradient ?x 1 = Some 1" by auto
  from mixing_weight_extremes[OF st l(2) l(3) k(1)] m0 w0
  have b0: "only_gradient ?r 0 = Some 7" by auto
  from mixing_weight_extremes[OF st l(2) l(3) k(2)] m0 w0
  have b1: "only_gradient ?r 1 = Some 2" by auto
  from st m1 a0 a1 m0 b0 b1 show ?thesis by (intro conjI)
qed

section \<open>Verification of a training call\<close>

lemma fold_feed_one:
  "fold (\<lambda>w fd'. fd'(w \<mapsto> Scalar 1)) ps fd p = (if p \<in> set ps then Some (Scalar 1) else fd p)"
  by (induction ps arbitrary: fd) auto

lemma fed_scalars_ones:
  "(\<And>p. p \<in> set ps \<Longrightarrow> fd p = Some (Scalar 1)) \<Longrightarrow> fed_scalars ps fd = Inr (replicate (length ps) 1)"
  by (induction ps) auto

lemma run_feed_weights:
  "fed_scalars (mixer_weights G) (run_feed G fd bleus) = Inr (replicate (hidden_states G) 1)"
proof -
  have "fed_scalars (mixer_weights G) (run_feed G fd bleus)
      = Inr (replicate (length (mixer_weights G)) 1)"
    by (rule fed_scalars_ones) (simp add: run_feed_def fold_feed_one)
  then show ?thesis by (simp add: mixer_weights_def)
qed

text \<open>
  Claim C7, as amended.  Every training call feeds 1 for each per-step mixing
  weight, overriding whatever the caller has put into the feed dictionary; the
  gradients the call applies are the mixed gradients for the weights
  \<open>1, ..., 1\<close>.
\<close>

theorem run_fixes_weights:
  "run_gradients G fd bleus =
     mixed_gradients (reinforce_gradients G (run_feed G fd bleus))
       (xent_gradients G (run_feed G fd bleus)) (replicate (hidden_states G) 1)"
  by (simp add: run_gradients_def mixer_optimizer_def run_feed_weights)

theorem run_fixes_weights_witness:
  "run_gradients example_graph [MixerWeight 0 \<mapsto> Scalar (1 / 4)] [] = Inr [Some 5]"
  using run_fixes_weights[of example_graph "[MixerWeight 0 \<mapsto> Scalar (1 / 4)]" "[]"]
  by (simp add: example_graph_def mixed_gradients_def mix_def)

text \<open>
  Claim C7 as stated fails: the caller feeds the weight 0 for the only step,
  for which the mixed gradient is the reinforce gradient 3, and the call
  applies the cross-entropy gradient 5.
\<close>

theorem caller_weights_counterexample:
  "fed_scalars (mixer_weights example_graph) [MixerWeight 0 \<mapsto> Scalar 0] = Inr [0] \<and>
   mixed_gradients [[Tensor 3]] [[Tensor 5]] [0] = Inr [Some 3] \<and>
   run_gradients example_graph [MixerWeight 0 \<mapsto> Scalar 0] [] = Inr [Some 5] \<and>
   run_gradients example_graph [MixerWeight 0 \<mapsto> Scalar 0] [] \<noteq>
     mixed_gradients (reinforce_gradients example_graph [MixerWeight 0 \<mapsto> Scalar 0])
       (xent_gradients example_graph [MixerWeight 0 \<mapsto> Scalar 0]) [0]"
  by (simp add: run_gradients_def mixer_optimizer_def run_feed_def example_graph_def
      mixer_weights_def mixed_gradients_def mix_def)

subsection \<open>What a training call updates\<close>

lemma apply_gradients_frame:
  "v \<notin> snd ` set gvs \<Longrightarrow> apply_gradients opt gvs s v = s v"
  by (induction opt gvs s rule: apply_gradients.induct) (auto split: option.splits)

lemma run_frame:
  assumes "startswith v ''mixer''" and "run opt G fd bleus s = Inr s'"
  shows "s' v = s v"
proof -
  from assms(2) obtain gs where s': "s' = apply_gradients opt (zip gs (trainable_vars G)) s"
    by (auto simp: run_def sess_run_def mixer_optimizer_def split: sum.splits)
  from assms(1) have "v \<notin> set (trainable_vars G)" by (simp add: trainable_vars_def)
  then have "v \<notin> snd ` set (zip gs (trainable_vars G))"
    by (auto dest: set_zip_rightD)
  with s' show ?thesis by (simp add: apply_gradients_frame)
qed

text \<open>
  Claim C3 at a concrete training call.  The call runs \<open>mixer_optimizer\<close>
  alone: the decoder variable moves and the regressor's weight and bias keep
  their values, although the regression loss has a gradient for both.  The
  operation that line 23 builds is never run; run on its own it would assign
  to the decoder variable as well, since its variable list is every trainable
  variable.
\<close>

theorem regressor_never_trained:
  "run descent example_graph Map.empty [] example_store =
     Inr [''decoder/W'' \<mapsto> - 4, linear_reg_W \<mapsto> 1 / 2, linear_reg_b \<mapsto> 0] \<and>
   sess_run descent (regression_optimizer example_graph) Map.empty example_store =
     Inr [''decoder/W'' \<mapsto> - 1, linear_reg_W \<mapsto> - 1 / 2, linear_reg_b \<mapsto> - 1]"
  by (auto simp: run_def sess_run_def mixer_optimizer_def regression_optimizer_def run_feed_def
      example_graph_def example_store_def descent_def mixer_weights_def mixed_gradients_def
      mix_def trainable_vars_def registry_def linear_reg_W_def linear_reg_b_def)

text \<open>
  The branches of the merge loop on the cross-entropy gradient.  One that is
  \<open>None\<close> at the first step is recorded once as \<open>None\<close>; at a later step the
  pair is skipped and nothing is raised.  The last branch, for a value that is
  neither \<open>None\<close> nor one of the two tensor types, raises the \<open>NameError\<close> for
  the unbound name \<open>xg\<close>, whatever the type \<open>n\<close> of the value; \<open>tf.gradients\<close>
  yields no such value.
\<close>

lemma merge_step_branches:
  "merge_step 0 w j ((rg, NoneG) # rest) mixed = merge_step 0 w (Suc j) rest (mixed @ [None]) \<and>
   merge_step (Suc i) w j ((rg, NoneG) # rest) mixed = merge_step (Suc i) w (Suc j) rest mixed \<and>
   merge_step i w j ((rg, Other n) # rest) mixed = Inl (NameError ''xg'')"
  by simp

section \<open>Verification of the layer stack\<close>

lemma layer_zero: "layer D 0 inputs msk = Inr \<lparr>temporal_states = inputs, temporal_mask = msk\<rparr>"
  by (subst layer.simps) simp

lemma layer_negative: "level < 0 \<Longrightarrow> layer D level inputs msk = Inl RecursionError"
  by (subst layer.simps) simp

lemma layer_positive:
  "0 < level \<Longrightarrow>
   layer D level inputs msk =
     (case layer D (level - 1) inputs msk of
        Inl e \<Rightarrow> Inl e
      | Inr prev_layer \<Rightarrow>
          Inr \<lparr>temporal_states =
                 (if depth D = level then layer_norm D Outer else (\<lambda>x. x))
                   (feedforward_sublayer D (level - 1)
                      (encoder_attention_sublayer D (level - 1)
                         (self_attention_sublayer D (level - 1) prev_layer))),
               temporal_mask = msk\<rparr>)"
  by (subst layer.simps) (simp add: Let_def split: sum.splits)

lemma layer_total:
  "0 \<le> level \<Longrightarrow> \<exists>s. layer D level inputs msk = Inr \<lparr>temporal_states = s, temporal_mask = msk\<rparr>"
proof (induction level rule: int_ge_induct)
  case base
  show ?case by (simp add: layer_zero)
next
  case (step i)
  then obtain s where "layer D i inputs msk = Inr \<lparr>temporal_states = s, temporal_mask = msk\<rparr>"
    by blast
  with step.hyps show ?case by (simp add: layer_positive)
qed

text \<open>
  Claim C8.  Level 0 of the stack is the embedded input itself.  Every level
  \<open>level \<ge> 1\<close> is computed, and is built from the states of level
  \<open>level - 1\<close> alone by three residual sublayers, each applied to the layer
  normalization of its input: self-attention with the causal mask (the flag
  \<open>masked\<close> is true), attention over the encoder states without it, and the
  feed-forward network; one more layer normalization is applied to the output
  exactly when the level equals the configured depth.
\<close>

theorem layer_recursion:
  "layer D 0 inputs msk = Inr \<lparr>temporal_states = inputs, temporal_mask = msk\<rparr> \<and>
   (1 \<le> level \<longrightarrow>
     (\<exists>prev.
        layer D (level - 1) inputs msk = Inr \<lparr>temporal_states = prev, temporal_mask = msk\<rparr> \<and>
        layer D level inputs msk =
          (let k = level - 1;
               self_context =
                 dropout D
                   (attention D (Layer k ''self_attention'')
                      (layer_norm D (Layer k ''self_attention'') prev)
                      (layer_norm D (Layer k ''self_attention'') prev)
                      (layer_norm D (Layer k ''self_attention'') prev)
                      msk (n_heads_self D) True)
                 + prev;
               encoder_context =
                 dropout D
                   (attention D (Layer k ''encdec_attention'')
                      (layer_norm D (Layer k ''encdec_attention'') self_context)
                      (encoder_states D) (encoder_states D) (encoder_mask D)
                      (n_heads_enc D) False)
                 + self_context;
               output_states =
                 dropout D
                   (dense D (Layer k ''feedforward'') ''output'' (dimension D) False
                      (dropout D
                         (dense D (Layer k ''feedforward'') ''hidden_state'' (ff_hidden_size D) True
                            (layer_norm D (Layer k ''feedforward'') encoder_context))))
                 + encoder_context
           in Inr \<lparr>temporal_states =
                      (if level = depth D then layer_norm D Outer output_states
                       else output_states),
                    temporal_mask = msk\<rparr>)))"
proof (intro conjI impI)
  show "layer D 0 inputs msk = Inr \<lparr>temporal_states = inputs, temporal_mask = msk\<rparr>"
    by (rule layer_zero)
next
  assume l: "1 \<le> level"
  then have "0 \<le> level - 1" by simp
  from layer_total[OF this] obtain prev where
    p: "layer D (level - 1) inputs msk = Inr \<lparr>temporal_states = prev, temporal_mask = msk\<rparr>"
    by blast
  from l have "0 < level" by simp
  from layer_positive[OF this, of D inputs msk] p
  show "\<exists>prev.
        layer D (level - 1) inputs msk = Inr \<lparr>temporal_states = prev, temporal_mask = msk\<rparr> \<and>
        layer D level inputs msk =
          (let k = level - 1;
               self_context =
                 dropout D
                   (attention D (Layer k ''self_attention'')
                      (layer_norm D (Layer k ''self_attention'') prev)
                      (layer_norm D (Layer k ''self_attention'') prev)
                      (layer_norm D (Layer k ''self_attention'') prev)
                      msk (n_heads_self D) True)
                 + prev;
               encoder_context =
                 dropout D
                   (attention D (Layer k ''encdec_attention'')
                      (layer_norm D (Layer k ''encdec_attention'') self_context)
                      (encoder_states D) (encoder_states D) (encoder_mask D)
                      (n_heads_enc D) False)
                 + self_context;
               output_states =
                 dropout D
                   (dense D (Layer k ''feedforward'') ''output'' (dimension D) False
                      (dropout D
                         (dense D (Layer k ''feedforward'') ''hidden_state'' (ff_hidden_size D) True
                            (layer_norm D (Layer k ''feedforward'') encoder_context))))
                 + encoder_context
           in Inr \<lparr>temporal_states =
                      (if level = depth D then layer_norm D Outer output_states
                       else output_states),
                    temporal_mask = msk\<rparr>)"
    by (auto simp: Let_def self_attention_sublayer_def encoder_attention_sublayer_def
        feedforward_sublayer_def masked_default_def)
qed

section \<open>Verification of the decoding loop\<close>

lemma multiply_Inr: "multiply xs ys = Inr zs \<Longrightarrow> length xs = length ys \<and> zs = map2 (*) xs ys"
  by (auto simp: multiply_def split: if_splits)

text \<open>What one successful step does to the loop state.\<close>

lemma body_Inr:
  assumes "body D END sample ls = Inr ls'"
  shows "\<not> sample"
    and "step (feedables ls') = step (feedables ls) + 1"
    and "length (finished (feedables ls')) = length (finished (feedables ls))"
    and "length (input_symbol (feedables ls')) = length (finished (feedables ls))"
    and "outputs (histories ls') = outputs (histories ls) @ [input_symbol (feedables ls')]"
    and "\<exists>x. logits (histories ls') = logits (histories ls) @ [x]"
    and "\<exists>x. decoder_outputs (histories ls') = decoder_outputs (histories ls) @ [x]"
    and "\<exists>x. mask_history (histories ls') = mask_history (histories ls) @ [x]"
    and "decoded_symbols (histories ls') =
           decoded_symbols (histories ls) @ [input_symbol (feedables ls)]"
    and "\<exists>x. input_mask (histories ls') = input_mask (histories ls) @ [x]"
    and "\<And>i. i < length (finished (feedables ls)) \<Longrightarrow> finished (feedables ls) ! i \<Longrightarrow>
           finished (feedables ls') ! i \<and> input_symbol (feedables ls') ! i = PAD_TOKEN_INDEX"
    and "\<And>i. i < length (finished (feedables ls)) \<Longrightarrow>
           finished (feedables ls') ! i =
             (finished (feedables ls) ! i \<or> input_symbol (feedables ls') ! i = END)"
proof -
  let ?L = "layer D (depth D)
      (embed_inputs D (transpose (decoded_symbols (histories ls) @ [input_symbol (feedables ls)])))
      (transpose (input_mask (histories ls) @
         [map (\<lambda>f. if \<not> f then 1 else 0) (finished (feedables ls))]))"
  from assms obtain last_layer where L: "?L = Inr last_layer"
    by (cases ?L) (auto simp: body_def Let_def)
  let ?state = "last_time_slice D (temporal_states last_layer)"
  let ?logits = "add_bias (matmul ?state (decoding_w D)) (decoding_b D)"
  let ?unfinished = "map (\<lambda>f. if \<not> f then 1 else (0::int)) (finished (feedables ls))"
  from assms L have ns: "\<not> sample"
    by (auto simp: body_def Let_def split: if_splits)
  from assms L ns obtain best where A: "argmax ?logits = Inr best"
    by (cases "argmax ?logits") (auto simp: body_def Let_def)
  from assms L ns A obtain next_symbols where m: "multiply best ?unfinished = Inr next_symbols"
    by (cases "multiply best ?unfinished") (auto simp: body_def Let_def)
  from assms L ns A m have ls': "ls' =
      \<lparr>histories =
         \<lparr>logits = logits (histories ls) @ [?logits],
          decoder_outputs = decoder_outputs (histories ls) @ [?state],
          mask_history = mask_history (histories ls) @
            [map Not (map2 (\<or>) (finished (feedables ls)) (map (\<lambda>s. s = END) next_symbols))],
          outputs = outputs (histories ls) @ [next_symbols],
          decoded_symbols = decoded_symbols (histories ls) @ [input_symbol (feedables ls)],
          input_mask = input_mask (histories ls) @
            [map (\<lambda>f. if \<not> f then 1 else 0) (finished (feedables ls))]\<rparr>,
       constants = [],
       feedables =
         \<lparr>step = step (feedables ls) + 1,
          finished = map2 (\<or>) (finished (feedables ls)) (map (\<lambda>s. s = END) next_symbols),
          input_symbol = next_symbols,
          prev_logits = ?logits\<rparr>\<rparr>"
    by (simp add: body_def Let_def)
  from multiply_Inr[OF m] have
    len: "length best = length (finished (feedables ls))" and
    nx: "next_symbols = map2 (*) best (map (\<lambda>f. if \<not> f then 1 else 0) (finished (feedables ls)))"
    by simp_all
  from nx len have ln: "length next_symbols = length (finished (feedables ls))" by simp
  show "\<not> sample" by (rule ns)
  show "step (feedables ls') = step (feedables ls) + 1" by (simp add: ls')
  show "length (finished (feedables ls')) = length (finished (feedables ls))" by (simp add: ls' ln)
  show "length (input_symbol (feedables ls')) = length (finished (feedables ls))"
    by (simp add: ls' ln)
  show "outputs (histories ls') = outputs (histories ls) @ [input_symbol (feedables ls')]"
    by (simp add: ls')
  show "\<exists>x. logits (histories ls') = logits (histories ls) @ [x]" by (simp add: ls')
  show "\<exists>x. decoder_outputs (histories ls') = decoder_outputs (histories ls) @ [x]"
    by (simp add: ls')
  show "\<exists>x. mask_history (histories ls') = mask_history (histories ls) @ [x]" by (simp add: ls')
  show "decoded_symbols (histories ls') =
           decoded_symbols (histories ls) @ [input_symbol (feedables ls)]" by (simp add: ls')
  show "\<exists>x. input_mask (histories ls') = input_mask (histories ls) @ [x]" by (simp add: ls')
  show "finished (feedables ls') ! i \<and> input_symbol (feedables ls') ! i = PAD_TOKEN_INDEX"
    if "i < length (finished (feedables ls))" "finished (feedables ls) ! i" for i
    using that len ln by (simp add: ls' nx PAD_TOKEN_INDEX_def)
  show "finished (feedables ls') ! i =
             (finished (feedables ls) ! i \<or> input_symbol (feedables ls') ! i = END)"
    if "i < length (finished (feedables ls))" for i
    using that len ln by (simp add: ls')
qed

lemma decode_add:
  "decode D END sample (n + m) ls =
     (case decode D END sample n ls of Inl e \<Rightarrow> Inl e | Inr ls' \<Rightarrow> decode D END sample m ls')"
  by (induction n arbitrary: ls) (auto split: sum.splits)

lemma decode_outputs_length:
  "decode D END sample n ls = Inr ls' \<Longrightarrow>
     length (outputs (histories ls')) = length (outputs (histories ls)) + n \<and>
     length (finished (feedables ls')) = length (finished (feedables ls)) \<and>
     take (length (outputs (histories ls))) (outputs (histories ls')) = outputs (histories ls)"
proof (induction n arbitrary: ls)
  case 0
  then show ?case by simp
next
  case (Suc n)
  then obtain l1 where b: "body D END sample ls = Inr l1" and d: "decode D END sample n l1 = Inr ls'"
    by (auto split: sum.splits)
  from Suc.IH[OF d] body_Inr(3,5)[OF b] show ?case
    by (auto simp: take_Suc_conv_app_nth dest: arg_cong[where f = "take (length (outputs (histories ls)))"])
qed

lemma decode_frozen:
  "decode D END sample m ls = Inr ls' \<Longrightarrow> i < length (finished (feedables ls)) \<Longrightarrow>
   finished (feedables ls) ! i \<Longrightarrow>
     finished (feedables ls') ! i \<and>
     (\<forall>k<m. outputs (histories ls') ! (length (outputs (histories ls)) + k) ! i = PAD_TOKEN_INDEX)"
proof (induction m arbitrary: ls)
  case 0
  then show ?case by simp
next
  case (Suc m)
  then obtain l1 where b: "body D END sample ls = Inr l1" and d: "decode D END sample m l1 = Inr ls'"
    by (auto split: sum.splits)
  note B = body_Inr[OF b]
  from B(11)[OF Suc.prems(2,3)] have f1: "finished (feedables l1) ! i"
    and p1: "input_symbol (feedables l1) ! i = PAD_TOKEN_INDEX" by simp_all
  from Suc.prems(2) B(3) have i1: "i < length (finished (feedables l1))" by simp
  from Suc.IH[OF d i1 f1] have
    fin: "finished (feedables ls') ! i" and
    later: "\<forall>k<m. outputs (histories ls') ! (length (outputs (histories l1)) + k) ! i = PAD_TOKEN_INDEX"
    by simp_all
  from decode_outputs_length[OF d] have
    tk: "take (length (outputs (histories l1))) (outputs (histories ls')) = outputs (histories l1)"
    and ll: "length (outputs (histories ls')) = length (outputs (histories l1)) + m"
    by simp_all
  let ?n = "length (outputs (histories ls))"
  have l1len: "length (outputs (histories l1)) = Suc ?n" by (simp add: B(5))
  from tk l1len have tk': "take (Suc ?n) (outputs (histories ls')) = outputs (histories l1)"
    by simp
  have "outputs (histories ls') ! ?n = take (Suc ?n) (outputs (histories ls')) ! ?n"
    by simp
  also have "\<dots> = outputs (histories l1) ! ?n" by (simp only: tk')
  also have "\<dots> = input_symbol (feedables l1)" by (simp add: B(5))
  finally have first: "outputs (histories ls') ! ?n ! i = PAD_TOKEN_INDEX" by (simp add: p1)
  have "outputs (histories ls') ! (?n + k) ! i = PAD_TOKEN_INDEX" if "k < Suc m" for k
  proof (cases k)
    case 0
    with first show ?thesis by simp
  next
    case (Suc k')
    with that later l1len show ?thesis by simp
  qed
  with fin show ?case by blast
qed

text \<open>
  Claim C2.  Let the loop run from any state \<open>ls0\<close>, with either way of
  choosing the symbol, and let the batch element \<open>i\<close> be finished after \<open>t\<close>
  steps.  Then in the state after \<open>t + m\<close> steps it is still finished, and the
  output token of every later step \<open>t'\<close> (steps are counted from 0) is the
  padding id for this element.
\<close>

theorem finished_frozen:
  assumes "decode D END sample t ls0 = Inr ls"
    and "i < length (finished (feedables ls))"
    and "finished (feedables ls) ! i"
    and "decode D END sample (t + m) ls0 = Inr ls'"
  shows "finished (feedables ls') ! i \<and>
         (\<forall>t'. t \<le> t' \<and> t' < t + m \<longrightarrow>
            outputs (histories ls') ! (length (outputs (histories ls0)) + t') ! i = PAD_TOKEN_INDEX)"
proof -
  from assms(1,4) have d: "decode D END sample m ls = Inr ls'" by (simp add: decode_add)
  from decode_frozen[OF d assms(2,3)] have
    fin: "finished (feedables ls') ! i" and
    later: "\<forall>k<m. outputs (histories ls') ! (length (outputs (histories ls)) + k) ! i = PAD_TOKEN_INDEX"
    by simp_all
  from decode_outputs_length[OF assms(1)] have
    len: "length (outputs (histories ls)) = length (outputs (histories ls0)) + t" by simp
  have "outputs (histories ls') ! (length (outputs (histories ls0)) + t') ! i = PAD_TOKEN_INDEX"
    if "t \<le> t'" "t' < t + m" for t'
  proof -
    from that have "t' - t < m" by simp
    with later have "outputs (histories ls') ! (length (outputs (histories ls)) + (t' - t)) ! i = PAD_TOKEN_INDEX"
      by blast
    with len that show ?thesis by (simp add: add.assoc)
  qed
  with fin show ?thesis by blast
qed

lemma initial_match: "histories_match_step (get_initial_loop_state b g p)"
  by (simp add: histories_match_step_def get_initial_loop_state_def default_loop_state_def)

lemma body_match:
  assumes "histories_match_step ls" "body D END sample ls = Inr ls'"
  shows "histories_match_step ls'"
proof -
  note B = body_Inr[OF assms(2)]
  from B(6) obtain a where a: "logits (histories ls') = logits (histories ls) @ [a]" by blast
  from B(7) obtain b where b: "decoder_outputs (histories ls') = decoder_outputs (histories ls) @ [b]" by blast
  from B(8) obtain c where c: "mask_history (histories ls') = mask_history (histories ls) @ [c]" by blast
  from B(10) obtain d where d: "input_mask (histories ls') = input_mask (histories ls) @ [d]" by blast
  from assms(1) show ?thesis
    unfolding histories_match_step_def by (simp add: a b c d B(2) B(5) B(9))
qed

text \<open>
  Claim C9.  The initial loop state has the step counter 0 and six empty
  histories.  In every loop state reachable from it by the step function each
  of the six histories has as many entries as the step counter says, and
  every step the function takes from such a state, in either mode, appends
  exactly one slice to each of the six histories and increments the step
  counter by one.
\<close>

theorem history_lengths:
  assumes "reachable D END (get_initial_loop_state batch_size go_symbol logits0) ls"
  shows "step (feedables (get_initial_loop_state batch_size go_symbol logits0)) = 0 \<and>
         logits (histories (get_initial_loop_state batch_size go_symbol logits0)) = [] \<and>
         decoder_outputs (histories (get_initial_loop_state batch_size go_symbol logits0)) = [] \<and>
         mask_history (histories (get_initial_loop_state batch_size go_symbol logits0)) = [] \<and>
         outputs (histories (get_initial_loop_state batch_size go_symbol logits0)) = [] \<and>
         decoded_symbols (histories (get_initial_loop_state batch_size go_symbol logits0)) = [] \<and>
         input_mask (histories (get_initial_loop_state batch_size go_symbol logits0)) = [] \<and>
         int (length (logits (histories ls))) = step (feedables ls) \<and>
         int (length (decoder_outputs (histories ls))) = step (feedables ls) \<and>
         int (length (mask_history (histories ls))) = step (feedables ls) \<and>
         int (length (outputs (histories ls))) = step (feedables ls) \<and>
         int (length (decoded_symbols (histories ls))) = step (feedables ls) \<and>
         int (length (input_mask (histories ls))) = step (feedables ls) \<and>
         (\<forall>sample ls'. body D END sample ls = Inr ls' \<longrightarrow>
            step (feedables ls') = step (feedables ls) + 1 \<and>
            (\<exists>x. logits (histories ls') = logits (histories ls) @ [x]) \<and>
            (\<exists>x. decoder_outputs (histories ls') = decoder_outputs (histories ls) @ [x]) \<and>
            (\<exists>x. mask_history (histories ls') = mask_history (histories ls) @ [x]) \<and>
            (\<exists>x. outputs (histories ls') = outputs (histories ls) @ [x]) \<and>
            (\<exists>x. decoded_symbols (histories ls') = decoded_symbols (histories ls) @ [x]) \<and>
            (\<exists>x. input_mask (histories ls') = input_mask (histories ls) @ [x]))"
proof -
  from assms have "histories_match_step ls"
  proof (induction rule: reachable.induct)
    case reach_start
    show ?case by (rule initial_match)
  next
    case (reach_step ls sample ls')
    then show ?case by (blast intro: body_match)
  qed
  then have inv:
    "int (length (logits (histories ls))) = step (feedables ls) \<and>
     int (length (decoder_outputs (histories ls))) = step (feedables ls) \<and>
     int (length (mask_history (histories ls))) = step (feedables ls) \<and>
     int (length (outputs (histories ls))) = step (feedables ls) \<and>
     int (length (decoded_symbols (histories ls))) = step (feedables ls) \<and>
     int (length (input_mask (histories ls))) = step (feedables ls)"
    by (simp add: histories_match_step_def)
  have init:
    "step (feedables (get_initial_loop_state batch_size go_symbol logits0)) = 0 \<and>
     logits (histories (get_initial_loop_state batch_size go_symbol logits0)) = [] \<and>
     decoder_outputs (histories (get_initial_loop_state batch_size go_symbol logits0)) = [] \<and>
     mask_history (histories (get_initial_loop_state batch_size go_symbol logits0)) = [] \<and>
     outputs (histories (get_initial_loop_state batch_size go_symbol logits0)) = [] \<and>
     decoded_symbols (histories (get_initial_loop_state batch_size go_symbol logits0)) = [] \<and>
     input_mask (histories (get_initial_loop_state batch_size go_symbol logits0)) = []"
    by (simp add: get_initial_loop_state_def default_loop_state_def)
  have one:
    "step (feedables ls') = step (feedables ls) + 1 \<and>
     (\<exists>x. logits (histories ls') = logits (histories ls) @ [x]) \<and>
     (\<exists>x. decoder_outputs (histories ls') = decoder_outputs (histories ls) @ [x]) \<and>
     (\<exists>x. mask_history (histories ls') = mask_history (histories ls) @ [x]) \<and>
     (\<exists>x. outputs (histories ls') = outputs (histories ls) @ [x]) \<and>
     (\<exists>x. decoded_symbols (histories ls') = decoded_symbols (histories ls) @ [x]) \<and>
     (\<exists>x. input_mask (histories ls') = input_mask (histories ls) @ [x])"
    if b: "body D END sample ls = Inr ls'" for sample ls'
    using body_Inr(2,5,6,7,8,9,10)[OF b] by simp
  from init inv one show ?thesis by blast
qed

section \<open>The decoder on the concrete inputs\<close>

lemmas example_defs =
  layer_positive layer_zero example_decoder_def self_attention_sublayer_def
  encoder_attention_sublayer_def feedforward_sublayer_def masked_default_def
  matmul_def add_bias_def multiply_def Let_def numeral_2_eq_2

lemma example_layer:
  "layer example_decoder 1 2 [] = Inr \<lparr>temporal_states = 130, temporal_mask = []\<rparr>"
  by (simp add: example_defs)

lemma example_step_1: "body example_decoder 2 False example_state = Inr example_state_1"
  by (simp add: body_def example_state_def example_state_1_def get_initial_loop_state_def
      default_loop_state_def example_defs)

lemma example_step_2: "body example_decoder 2 False example_state_1 = Inr example_state_2"
  by (simp add: body_def example_state_1_def example_state_2_def example_defs)

lemma example_step_3: "body example_decoder 2 False example_state_2 = Inr example_state_3"
  by (simp add: body_def example_state_2_def example_state_3_def example_defs)

theorem layer_recursion_witness:
  "(1::int) \<le> 1 \<and>
   layer example_decoder 0 2 [] = Inr \<lparr>temporal_states = 2, temporal_mask = []\<rparr> \<and>
   layer example_decoder 1 2 [] = Inr \<lparr>temporal_states = 130, temporal_mask = []\<rparr>"
proof -
  from layer_recursion[of example_decoder 2 "[]" 1]
  obtain prev where
    z: "layer example_decoder 0 2 [] = Inr \<lparr>temporal_states = 2, temporal_mask = []\<rparr>" and
    p: "layer example_decoder (1 - 1) 2 [] = Inr \<lparr>temporal_states = prev, temporal_mask = []\<rparr>" and
    l: "layer example_decoder 1 2 [] =
          (let k = (1::int) - 1;
               self_context =
                 dropout example_decoder
                   (attention example_decoder (Layer k ''self_attention'')
                      (layer_norm example_decoder (Layer k ''self_attention'') prev)
                      (layer_norm example_decoder (Layer k ''self_attention'') prev)
                      (layer_norm example_decoder (Layer k ''self_attention'') prev)
                      [] (n_heads_self example_decoder) True)
                 + prev;
               encoder_context =
                 dropout example_decoder
                   (attention example_decoder (Layer k ''encdec_attention'')
                      (layer_norm example_decoder (Layer k ''encdec_attention'') self_context)
                      (encoder_states example_decoder) (encoder_states example_decoder)
                      (encoder_mask example_decoder) (n_heads_enc example_decoder) False)
                 + self_context;
               output_states =
                 dropout example_decoder
                   (dense example_decoder (Layer k ''feedforward'') ''output''
                      (dimension example_decoder) False
                      (dropout example_decoder
                         (dense example_decoder (Layer k ''feedforward'') ''hidden_state''
                            (ff_hidden_size example_decoder) True
                            (layer_norm example_decoder (Layer k ''feedforward'') encoder_context))))
                 + encoder_context
           in Inr \<lparr>temporal_states =
                      (if 1 = depth example_decoder
                       then layer_norm example_decoder Outer output_states
                       else output_states),
                    temporal_mask = []\<rparr>)"
    by auto
  from z p have "prev = 2" by simp
  with l have "layer example_decoder 1 2 [] = Inr \<lparr>temporal_states = 130, temporal_mask = []\<rparr>"
    by (simp add: example_decoder_def Let_def)
  with z show ?thesis by simp
qed

theorem finished_frozen_witness:
  "decode example_decoder 2 False 1 example_state = Inr example_state_1 \<and>
   0 < length (finished (feedables example_state_1)) \<and>
   finished (feedables example_state_1) ! 0 \<and>
   decode example_decoder 2 False (1 + 2) example_state = Inr example_state_3 \<and>
   finished (feedables example_state_3) ! 0 \<and>
   outputs (histories example_state_3) ! 1 ! 0 = PAD_TOKEN_INDEX \<and>
   outputs (histories example_state_3) ! 2 ! 0 = PAD_TOKEN_INDEX"
proof -
  have d1: "decode example_decoder 2 False 1 example_state = Inr example_state_1"
    by (simp add: example_step_1)
  have d3: "decode example_decoder 2 False (1 + 2) example_state = Inr example_state_3"
    by (simp add: numeral_3_eq_3 example_step_1 example_step_2 example_step_3)
  have i: "0 < length (finished (feedables example_state_1))"
    and f: "finished (feedables example_state_1) ! 0"
    by (simp_all add: example_state_1_def)
  have o: "length (outputs (histories example_state)) = 0"
    by (simp add: example_state_def get_initial_loop_state_def default_loop_state_def)
  from finished_frozen[OF d1 i f d3] have
    fin: "finished (feedables example_state_3) ! 0" and
    all: "\<forall>t'. 1 \<le> t' \<and> t' < 1 + 2 \<longrightarrow>
      outputs (histories example_state_3) ! (length (outputs (histories example_state)) + t') ! 0
        = PAD_TOKEN_INDEX" by blast+
  from all o have "outputs (histories example_state_3) ! 1 ! 0 = PAD_TOKEN_INDEX"
    and "outputs (histories example_state_3) ! 2 ! 0 = PAD_TOKEN_INDEX" by simp_all
  with d1 i f d3 fin show ?thesis by (intro conjI)
qed

theorem history_lengths_witness:
  "reachable example_decoder 2 (get_initial_loop_state 2 1 []) example_state_1 \<and>
   step (feedables (get_initial_loop_state 2 1 [])) = 0 \<and>
   outputs (histories (get_initial_loop_state 2 1 [])) = [] \<and>
   decoded_symbols (histories (get_initial_loop_state 2 1 [])) = [] \<and>
   int (length (logits (histories example_state_1))) = step (feedables example_state_1) \<and>
   int (length (decoder_outputs (histories example_state_1))) = step (feedables example_state_1) \<and>
   int (length (mask_history (histories example_state_1))) = step (feedables example_state_1) \<and>
   int (length (outputs (histories example_state_1))) = step (feedables example_state_1) \<and>
   int (length (decoded_symbols (histories example_state_1))) = step (feedables example_state_1) \<and>
   int (length (input_mask (histories example_state_1))) = step (feedables example_state_1) \<and>
   body example_decoder 2 False example_state_1 = Inr example_state_2 \<and>
   step (feedables example_state_2) = step (feedables example_state_1) + 1 \<and>
   outputs (histories example_state_2) = outputs (histories example_state_1) @ [[0, 1]] \<and>
   decoded_symbols (histories example_state_2) =
     decoded_symbols (histories example_state_1) @ [[2, 1]]"
proof -
  have "reachable example_decoder 2 example_state example_state_1"
    by (rule reach_step[OF reach_start example_step_1])
  then have r: "reachable example_decoder 2 (get_initial_loop_state 2 1 []) example_state_1"
    by (simp add: example_state_def)
  note H = history_lengths[OF r]
  from H have init: "step (feedables (get_initial_loop_state 2 1 [])) = 0"
    "outputs (histories (get_initial_loop_state 2 1 [])) = []"
    "decoded_symbols (histories (get_initial_loop_state 2 1 [])) = []"
    by blast+
  from H have inv:
    "int (length (logits (histories example_state_1))) = step (feedables example_state_1)"
    "int (length (decoder_outputs (histories example_state_1))) = step (feedables example_state_1)"
    "int (length (mask_history (histories example_state_1))) = step (feedables example_state_1)"
    "int (length (outputs (histories example_state_1))) = step (feedables example_state_1)"
    "int (length (decoded_symbols (histories example_state_1))) = step (feedables example_state_1)"
    "int (length (input_mask (histories example_state_1))) = step (feedables example_state_1)"
    by blast+
  from H example_step_2 have
    st: "step (feedables example_state_2) = step (feedables example_state_1) + 1" and
    ex: "\<exists>x. outputs (histories example_state_2) = outputs (histories example_state_1) @ [x]"
      "\<exists>x. decoded_symbols (histories example_state_2) =
          decoded_symbols (histories example_state_1) @ [x]"
    by blast+
  from ex have
    o: "outputs (histories example_state_2) = outputs (histories example_state_1) @ [[0, 1]]" and
    d: "decoded_symbols (histories example_state_2) =
          decoded_symbols (histories example_state_1) @ [[2, 1]]"
    by (auto simp: example_state_1_def example_state_2_def)
  from r init inv example_step_2 st o d show ?thesis by (intro conjI)
qed

text \<open>
  Claim C4.  With \<open>sample=True\<close> the step function never returns a loop state,
  whatever the decoder and the state; on the concrete decoder the call
  \<open>get_body(train_mode=False, sample=True)\<close> succeeds and the step function it
  returns raises \<open>UnboundLocalError\<close> for \<open>has_finished\<close> on the initial state.
\<close>

theorem sample_mode_raises:
  "body D END True ls \<noteq> Inr ls' \<and>
   get_body example_decoder 2 False True = Inr (body example_decoder 2 True) \<and>
   body example_decoder 2 True example_state = Inl (UnboundLocalError ''has_finished'')"
  by (auto simp: body_def get_body_def example_state_def get_initial_loop_state_def
      default_loop_state_def example_defs split: sum.splits)

section \<open>Verification of the driver\<close>

lemma ints_length: "ints ps = Inr vs \<Longrightarrow> length vs = length ps"
  by (induction ps arbitrary: vs rule: ints.induct) (auto split: sum.splits)

lemma mixer_values_two: "mixer_values pieces = Inr ms \<Longrightarrow> \<exists>x m. ms = [x, m]"
proof -
  assume "mixer_values pieces = Inr ms"
  then have "length ms = 2" by (auto simp: mixer_values_def split: sum.splits if_splits)
  then show ?thesis
    by (cases ms; cases "tl ms") (auto simp: numeral_2_eq_2)
qed

text \<open>
  Claim C10.  When the option \<open>--mixer\<close> is set, to any value its type function
  accepts, the construction of the trainer raises the \<open>TypeError\<close> of a
  constructor of two positional parameters (\<open>self\<close> and the decoder) called
  with four, for every decoder; the driver ends with an exception and never
  enters the training loop, and the exception is that \<open>TypeError\<close> whenever the
  driver gets as far as building the decoder.
\<close>

theorem mixer_option_fails:
  assumes "mixer_values pieces = Inr ms" and "mixer a = Some ms"
  shows "make_trainer CrossEntropyTrainer a decoder = Inl (TypeError 2 4) \<and>
         (\<exists>e. driver build CrossEntropyTrainer training_loop a = Inl e) \<and>
         (\<not> character_based a \<and> build a = Inr decoder \<longrightarrow>
            driver build CrossEntropyTrainer training_loop a = Inl (TypeError 2 4))"
proof -
  from mixer_values_two[OF assms(1)] obtain x m where ms: "ms = [x, m]" by blast
  with assms(2) have t: "make_trainer CrossEntropyTrainer a d = Inl (TypeError 2 4)" for d
    by (simp add: make_trainer_def Mixer_def)
  then show ?thesis
    by (auto simp: driver_def split: sum.splits)
qed

theorem mixer_option_fails_witness:
  "mixer_values [Some 3, Some 5] = Inr [3, 5] \<and>
   mixer \<lparr>mixer = Some [3, 5], character_based = False, l2_regularization = 0\<rparr> = Some [3, 5] \<and>
   make_trainer (\<lambda>G l2. Inr (Trainer (mixer_optimizer G)))
     \<lparr>mixer = Some [3, 5], character_based = False, l2_regularization = 0\<rparr> example_graph
     = Inl (TypeError 2 4) \<and>
   driver (\<lambda>a. Inr example_graph) (\<lambda>G l2. Inr (Trainer (mixer_optimizer G)))
     (\<lambda>t G. True) \<lparr>mixer = Some [3, 5], character_based = False, l2_regularization = 0\<rparr>
     = Inl (TypeError 2 4)"
proof -
  let ?a = "\<lparr>mixer = Some [3, 5], character_based = False, l2_regularization = 0\<rparr>"
  have v: "mixer_values [Some 3, Some 5] = Inr [3, 5]" by (simp add: mixer_values_def)
  have m: "mixer ?a = Some [3, 5]" by simp
  from mixer_option_fails[OF v m, of "\<lambda>G l2. Inr (Trainer (mixer_optimizer G))" example_graph
      "\<lambda>a. Inr example_graph" "\<lambda>t G. True"]
  have "make_trainer (\<lambda>G l2. Inr (Trainer (mixer_optimizer G))) ?a example_graph = Inl (TypeError 2 4)"
    and "driver (\<lambda>a. Inr example_graph) (\<lambda>G l2. Inr (Trainer (mixer_optimizer G))) (\<lambda>t G. True) ?a
      = Inl (TypeError 2 4)" by simp_all
  with v m show ?thesis by (intro conjI)
qed

section \<open>Verification of the policy-gradient term\<close>

lemma max_value_Max:
  assumes "row \<noteq> []"
  shows "max_value row = Max (set row)"
proof (cases row)
  case Nil
  with assms show ?thesis by simp
next
  case (Cons x xs)
  have "Max (set (x # xs)) = fold max xs x" by (rule Max.set_eq_fold)
  with Cons show ?thesis by simp
qed

lemma fst_reduce_max: "fst (reduce_max row) = max_value (map fst row)"
  by (simp add: reduce_max_def Let_def)

lemma length_softmax: "length (softmax row) = length row"
  by (simp add: softmax_def)

lemma length_d_softmax: "length (d_softmax row) = length row"
  by (simp add: d_softmax_def Let_def length_softmax)

lemma fst_d_softmax: "v < length row \<Longrightarrow> fst (d_softmax row ! v) = softmax (map fst row) ! v"
  by (simp add: d_softmax_def Let_def length_softmax)

lemma reduce_sum_0_columns:
  assumes "rows \<noteq> []" and "\<forall>row\<in>set rows. length row = V"
  shows "length (reduce_sum_0 rows) = V \<and>
         (\<forall>v<V. reduce_sum_0 rows ! v =
            ((\<Sum>b<length rows. fst (rows ! b ! v)), (\<Sum>b<length rows. snd (rows ! b ! v))))"
  using assms
proof (induction rows rule: reduce_sum_0.induct)
  case 1
  then show ?case by simp
next
  case (2 row)
  then show ?case by simp
next
  case (3 row r' rows)
  then have ih: "length (reduce_sum_0 (r' # rows)) = V"
    "\<forall>v<V. reduce_sum_0 (r' # rows) ! v =
        ((\<Sum>b<length (r' # rows). fst ((r' # rows) ! b ! v)),
         (\<Sum>b<length (r' # rows). snd ((r' # rows) ! b ! v)))"
    by simp_all
  from "3.prems" have lr: "length row = V" by simp
  have "reduce_sum_0 (row # r' # rows) ! v =
            ((\<Sum>b<length (row # r' # rows). fst ((row # r' # rows) ! b ! v)),
             (\<Sum>b<length (row # r' # rows). snd ((row # r' # rows) ! b ! v)))"
    if v: "v < V" for v
  proof -
    have "reduce_sum_0 (row # r' # rows) ! v = d_add (row ! v) (reduce_sum_0 (r' # rows) ! v)"
      using v lr ih(1) by simp
    also have "\<dots> = (fst (row ! v) + (\<Sum>b<length (r' # rows). fst ((r' # rows) ! b ! v)),
                      snd (row ! v) + (\<Sum>b<length (r' # rows). snd ((r' # rows) ! b ! v)))"
      using ih(2) v by (simp add: d_add_def)
    also have "\<dots> = ((\<Sum>b<length (row # r' # rows). fst ((row # r' # rows) ! b ! v)),
             (\<Sum>b<length (row # r' # rows). snd ((row # r' # rows) ! b ! v)))"
      by (simp add: sum.lessThan_Suc_shift del: sum.lessThan_Suc)
    finally show ?thesis .
  qed
  with lr ih(1) show ?case by simp
qed

lemma derivatives_value:
  assumes "step_shape bleu r l V"
  shows "length (derivatives bleu r l) = V \<and>
         (\<forall>v<V. fst (derivatives bleu r l ! v) = g_spec bleu (map fst r) (map (map fst) l) v)"
proof -
  from assms have ne: "l \<noteq> []" and lb: "length bleu = length l" and lr: "length r = length l"
    and rows: "\<And>b. b < length l \<Longrightarrow> length (l ! b) = V"
    by (simp_all add: step_shape_def list_all_length)
  define rows where "rows = map2 (\<lambda>c row. map (d_mul c) row)
          (map2 d_sub (map fed_value bleu) r)
          (map2 (map2 d_sub) (map d_softmax l) (indicator l))"
  have len: "length rows = length l"
    using lb lr by (simp add: rows_def indicator_def max_logits_def)
  have entry: "rows ! b =
      map (\<lambda>v. d_mul (d_sub (fed_value (bleu ! b)) (r ! b))
                 (d_sub (d_softmax (l ! b) ! v) (equal_float (reduce_max (l ! b)) (l ! b ! v))))
        [0..<V]" if b: "b < length l" for b
  proof (rule nth_equalityI)
    show "length (rows ! b) = length (map (\<lambda>v. d_mul (d_sub (fed_value (bleu ! b)) (r ! b))
                 (d_sub (d_softmax (l ! b) ! v) (equal_float (reduce_max (l ! b)) (l ! b ! v))))
        [0..<V])"
      using b lb lr rows[OF b]
      by (simp add: rows_def indicator_def max_logits_def length_d_softmax)
  next
    fix v assume "v < length (rows ! b)"
    with b lb lr rows[OF b] have v: "v < V"
      by (simp add: rows_def indicator_def max_logits_def length_d_softmax)
    with b lb lr rows[OF b]
    show "rows ! b ! v = map (\<lambda>v. d_mul (d_sub (fed_value (bleu ! b)) (r ! b))
                 (d_sub (d_softmax (l ! b) ! v) (equal_float (reduce_max (l ! b)) (l ! b ! v))))
        [0..<V] ! v"
      by (simp add: rows_def indicator_def max_logits_def length_d_softmax)
  qed
  from ne len have ne': "rows \<noteq> []" by auto
  have all: "\<forall>row\<in>set rows. length row = V"
  proof
    fix row assume "row \<in> set rows"
    then obtain b where "b < length rows" "row = rows ! b" by (auto simp: in_set_conv_nth)
    with len entry[of b] show "length row = V" by simp
  qed
  have dr: "derivatives bleu r l = reduce_sum_0 rows"
    by (simp add: derivatives_def rows_def)
  from reduce_sum_0_columns[OF ne' all] have
    L: "length (derivatives bleu r l) = V" and
    C: "\<forall>v<V. derivatives bleu r l ! v =
            ((\<Sum>b<length rows. fst (rows ! b ! v)), (\<Sum>b<length rows. snd (rows ! b ! v)))"
    unfolding dr by blast+
  have "fst (derivatives bleu r l ! v) = g_spec bleu (map fst r) (map (map fst) l) v"
    if v: "v < V" for v
  proof -
    from C v have "fst (derivatives bleu r l ! v) = (\<Sum>b<length l. fst (rows ! b ! v))"
      by (simp add: len)
    also have "\<dots> = (\<Sum>b<length l.
        (bleu ! b - fst (r ! b)) *
        (softmax (map fst (l ! b)) ! v -
           (if fst (l ! b ! v) = Max (set (map fst (l ! b))) then 1 else 0)))"
    proof (rule sum.cong[OF refl])
      fix b assume "b \<in> {..<length l}"
      then have b: "b < length l" by simp
      from rows[OF b] v have ne: "map fst (l ! b) \<noteq> []" by auto
      from rows[OF b] v have vb: "v < length (l ! b)" by simp
      show "fst (rows ! b ! v) = (bleu ! b - fst (r ! b)) *
        (softmax (map fst (l ! b)) ! v -
           (if fst (l ! b ! v) = Max (set (map fst (l ! b))) then 1 else 0))"
        using v vb by (auto simp: entry[OF b] d_mul_def d_sub_def fed_value_def equal_float_def
            fst_d_softmax fst_reduce_max max_value_Max[OF ne])
    qed
    also have "\<dots> = g_spec bleu (map fst r) (map (map fst) l) v"
      unfolding g_spec_def using lr rows v
      by (intro sum.cong) (auto simp: length_map)
    finally show ?thesis .
  qed
  with L show ?thesis by blast
qed

lemma sum_list_nth: "sum_list (map f xs) = (\<Sum>i<length xs. f (xs ! i))"
  by (simp add: sum_list_sum_nth atLeast0LessThan)

lemma tf_gradients_sum: "tf_gradients ys = (\<Sum>b<length ys. sum_list (map snd (ys ! b)))"
proof -
  have "sum_list (map snd (concat ys)) = sum_list (map (\<lambda>row. sum_list (map snd row)) ys)"
    by (induction ys) simp_all
  then show ?thesis by (simp add: tf_gradients_def sum_list_nth)
qed

lemma reinforce_gradient_value:
  assumes "step_shape bleu r l V"
  shows "reinforce_gradient bleu r l =
     (\<Sum>b<length l. \<Sum>v<V. snd (l ! b ! v) * g_spec bleu (map fst r) (map (map fst) l) v)"
proof -
  from assms have rows: "\<And>b. b < length l \<Longrightarrow> length (l ! b) = V"
    by (simp add: step_shape_def list_all_length)
  from derivatives_value[OF assms] have
    L: "length (derivatives bleu r l) = V" and
    G: "\<And>v. v < V \<Longrightarrow> fst (derivatives bleu r l ! v) = g_spec bleu (map fst r) (map (map fst) l) v"
    by simp_all
  let ?d = "derivatives_stopped bleu r l"
  have "reinforce_gradient bleu r l = (\<Sum>b<length l. sum_list (map snd (map2 d_mul (l ! b) ?d)))"
    by (simp add: reinforce_gradient_def tf_gradients_sum)
  also have "\<dots> = (\<Sum>b<length l. \<Sum>v<V. snd (l ! b ! v) * g_spec bleu (map fst r) (map (map fst) l) v)"
  proof (rule sum.cong[OF refl])
    fix b assume "b \<in> {..<length l}"
    then have b: "b < length l" by simp
    have "sum_list (map snd (map2 d_mul (l ! b) ?d)) =
        (\<Sum>v<length (map2 d_mul (l ! b) ?d). snd (map2 d_mul (l ! b) ?d ! v))"
      by (simp only: sum_list_nth)
    also have "\<dots> = (\<Sum>v<V. snd (map2 d_mul (l ! b) ?d ! v))"
      using rows[OF b] L by (simp add: derivatives_stopped_def)
    also have "\<dots> = (\<Sum>v<V. snd (l ! b ! v) * g_spec bleu (map fst r) (map (map fst) l) v)"
      using rows[OF b] L G
      by (intro sum.cong) (simp_all add: derivatives_stopped_def stop_gradient_def d_mul_def)
    finally show "sum_list (map snd (map2 d_mul (l ! b) ?d)) =
        (\<Sum>v<V. snd (l ! b ! v) * g_spec bleu (map fst r) (map (map fst) l) v)" .
  qed
  finally show ?thesis .
qed

lemma startswith_prefix: "startswith (p @ s) p"
  by (induction p) simp_all

lemma trainable_vars_outside:
  "(\<forall>x\<in>set (trainable_vars G). \<not> startswith x ''mixer'') \<and>
   linear_reg_W \<notin> set (trainable_vars G) \<and> linear_reg_b \<notin> set (trainable_vars G)"
  by (simp add: trainable_vars_def linear_reg_W_def linear_reg_b_def)

text \<open>
  Claim C5.  For a decoding step with a batch that is not empty: the term the
  estimator computes has, for every vocabulary entry, the value \<open>g\<close> of the
  specification, the sum over the batch of (actual reward - expected reward)
  times (softmax of the logits - indicator of the entries equal to the maximal
  logit), and the derivative 0, although the expected rewards and the logits
  it is computed from depend on the variable: it is a constant for the
  differentiation that follows.  The reinforce gradient of a variable is the
  derivative of the elementwise product of the logits with this term, the sum
  of the derivatives of the logits weighted by \<open>g\<close>.  It is taken for the
  variables of \<open>trainable_vars\<close> only, none of which has a name starting with
  \<open>mixer\<close>; the two variables of the regressor are not among them.
\<close>

theorem policy_gradient:
  assumes "step_shape bleu r l V"
  shows "length (derivatives_stopped bleu r l) = V \<and>
         (\<forall>v<V. derivatives_stopped bleu r l ! v =
            (g_spec bleu (map fst r) (map (map fst) l) v, 0)) \<and>
         reinforce_gradient bleu r l =
           (\<Sum>b<length l. \<Sum>v<V. snd (l ! b ! v) * g_spec bleu (map fst r) (map (map fst) l) v) \<and>
         (\<forall>x\<in>set (trainable_vars G). \<not> startswith x ''mixer'') \<and>
         linear_reg_W \<notin> set (trainable_vars G) \<and> linear_reg_b \<notin> set (trainable_vars G)"
  using derivatives_value[OF assms] reinforce_gradient_value[OF assms] trainable_vars_outside[of G]
  by (simp add: derivatives_stopped_def stop_gradient_def)

theorem policy_gradient_witness:
  "expected_reward [[(1, 6)], [(1, 0)]] [(1 / 2, 0)] (0, 0) = [(1 / 2, 3), (1 / 2, 0)] \<and>
   step_shape [1, 1] (expected_reward [[(1, 6)], [(1, 0)]] [(1 / 2, 0)] (0, 0))
     [[(0, 1), (0, 2)], [(0, 0), (0, 1)]] 2 \<and>
   derivatives_stopped [1, 1] (expected_reward [[(1, 6)], [(1, 0)]] [(1 / 2, 0)] (0, 0))
     [[(0, 1), (0, 2)], [(0, 0), (0, 1)]] = [(- 1 / 2, 0), (- 1 / 2, 0)] \<and>
   reinforce_gradient [1, 1] (expected_reward [[(1, 6)], [(1, 0)]] [(1 / 2, 0)] (0, 0))
     [[(0, 1), (0, 2)], [(0, 0), (0, 1)]] = - 2 \<and>
   trainable_vars example_graph = [''decoder/W'']"
proof -
  let ?bleu = "[1, 1::real]"
  let ?r = "[(1 / 2, 3), (1 / 2, 0)] :: dual list"
  let ?l = "[[(0, 1), (0, 2)], [(0, 0), (0, 1)]] :: dual list list"
  have e: "expected_reward [[(1, 6)], [(1, 0)]] [(1 / 2, 0)] (0, 0) = ?r"
    by (simp add: expected_reward_def d_add_def d_sum_def d_mul_def)
  have s: "step_shape ?bleu ?r ?l 2" by (simp add: step_shape_def)
  have gv: "g_spec [1, 1] [1 / 2, 1 / 2] [[0, 0], [0, 0]] v = - 1 / 2" if "v < 2" for v
  proof -
    from that have "v = 0 \<or> v = 1" by auto
    then show ?thesis
      by (auto simp: g_spec_def softmax_def numeral_2_eq_2)
  qed
  note P = policy_gradient[OF s, of example_graph]
  have len: "length (derivatives_stopped ?bleu ?r ?l) = 2" by (rule P[THEN conjunct1])
  from P gv have d0: "derivatives_stopped ?bleu ?r ?l ! 0 = (- 1 / 2, 0)"
    and d1: "derivatives_stopped ?bleu ?r ?l ! 1 = (- 1 / 2, 0)" by simp_all
  have d: "derivatives_stopped ?bleu ?r ?l = [(- 1 / 2, 0), (- 1 / 2, 0)]"
  proof (rule nth_equalityI)
    show "length (derivatives_stopped ?bleu ?r ?l) = length [(- 1 / 2, 0), (- 1 / 2, 0::real)]"
      using len by simp
  next
    fix i assume "i < length (derivatives_stopped ?bleu ?r ?l)"
    with len have "i = 0 \<or> i = 1" by auto
    with d0 d1 show "derivatives_stopped ?bleu ?r ?l ! i = [(- 1 / 2, 0), (- 1 / 2, 0::real)] ! i"
      by auto
  qed
  have "reinforce_gradient ?bleu ?r ?l =
      (\<Sum>b<length ?l. \<Sum>v<2. snd (?l ! b ! v) * g_spec ?bleu (map fst ?r) (map (map fst) ?l) v)"
    by (rule P[THEN conjunct2, THEN conjunct2, THEN conjunct1])
  also have "\<dots> = (\<Sum>b<length ?l. \<Sum>v<2. snd (?l ! b ! v) * (- 1 / 2))"
    by (intro sum.cong refl) (simp add: gv)
  also have "\<dots> = - 2" by (simp add: numeral_2_eq_2)
  finally have rg: "reinforce_gradient ?bleu ?r ?l = - 2" .
  have tv: "trainable_vars example_graph = [''decoder/W'']"
    by (simp add: trainable_vars_def registry_def example_graph_def linear_reg_W_def linear_reg_b_def)
  from e s d rg tv show ?thesis by (simp only: e)
qed

end
